theory Spec2Isabelle
  imports Complex_Main "HOL-Library.Word"
begin

section \<open>Scalars, errors and the array container\<close>

text \<open>
  The C++ types of \<^verbatim>\<open>scene/mesh.cpp\<close>: \<^verbatim>\<open>int\<close> and \<^verbatim>\<open>uint\<close> are 32-bit words (the
  conversion between the two keeps the bits, and arithmetic wraps around), \<^verbatim>\<open>size_t\<close>
  values are natural numbers, with the wrap-around at \<open>2 ^ 64\<close> written out where the
  source computes with them. A \<^verbatim>\<open>float\<close> is modelled by a real number: finite, with exact
  arithmetic; \<^verbatim>\<open>Triangle::compute_normal\<close>, whose result can be NaN, is embedded a second
  time over values that keep the range of the type, its infinities and NaN. What the
  source leaves undefined or aborts on is an error value of the model.
\<close>

type_synonym int32 = "32 word"
type_synonym uint32 = "32 word"
type_synonym float3 = "real \<times> real \<times> real"

datatype error = OutOfBounds | CapacityExceeded | DivisionByZero | CastOutOfRange

definition bind :: "error + 'a \<Rightarrow> ('a \<Rightarrow> error + 'b) \<Rightarrow> error + 'b" where
  "bind r f = (case r of Inl e \<Rightarrow> Inl e | Inr x \<Rightarrow> f x)"

text \<open>
  Reading a raw C array (a pointer) at a signed index: the list is the extent of the
  allocation, and an index outside it is undefined behaviour.
\<close>

definition read_at :: "'a list \<Rightarrow> int \<Rightarrow> error + 'a" where
  "read_at xs i = (if 0 \<le> i \<and> i < int (length xs) then Inr (xs ! nat i) else Inl OutOfBounds)"

text \<open>
  Modelled from the spec: the container \<^verbatim>\<open>array<T>\<close> (\<^verbatim>\<open>util/array.h\<close>) is not among the
  sources. The spec distinguishes the logical size of an array from its capacity:
  \<^verbatim>\<open>reserve\<close> changes only the capacity, \<^verbatim>\<open>push_back_reserved\<close> appends to a pre-reserved
  array, \<^verbatim>\<open>push_back_slow\<close> to a dynamically growing one. Appending to a pre-reserved array
  that has no room left, and indexing past the logical size, are errors.
\<close>

record 'a array =
  items :: "'a list"
  capacity :: nat

definition array_empty :: "'a array" where
  "array_empty = \<lparr>items = [], capacity = 0\<rparr>"

definition size_of :: "'a array \<Rightarrow> nat" where
  "size_of a = length (items a)"

definition reserve :: "nat \<Rightarrow> 'a array \<Rightarrow> 'a array" where
  "reserve newcapacity a = a\<lparr>capacity := max (capacity a) newcapacity\<rparr>"

definition push_back_reserved :: "'a \<Rightarrow> 'a array \<Rightarrow> error + 'a array" where
  "push_back_reserved t a =
     (if size_of a < capacity a then Inr (a\<lparr>items := items a @ [t]\<rparr>)
      else Inl CapacityExceeded)"

definition push_back_slow :: "'a \<Rightarrow> 'a array \<Rightarrow> 'a array" where
  "push_back_slow t a =
     a\<lparr>items := items a @ [t], capacity := max (capacity a) (Suc (size_of a))\<rparr>"

definition array_at :: "'a array \<Rightarrow> nat \<Rightarrow> error + 'a" where
  "array_at a i = (if i < size_of a then Inr (items a ! i) else Inl OutOfBounds)"

section \<open>Bounding boxes and the attribute store\<close>

text \<open>
  Modelled from the spec: \<^verbatim>\<open>BoundBox\<close> (\<^verbatim>\<open>util/boundbox.h\<close>) is not among the sources. The
  spec speaks of an empty box, of growing a box by a point, of a box that is invalid
  because a point with a non-finite coordinate went into it, of a tolerant grow that
  skips such points, and of the degenerate box that contains only the origin. A point
  handed to a box is \<open>Some p\<close> when all its coordinates are finite and \<open>None\<close> when one of
  them is NaN or infinite.
\<close>

datatype BoundBox = BoundBox_empty | Box float3 float3 | BoundBox_nonfinite

definition min3 :: "float3 \<Rightarrow> float3 \<Rightarrow> float3" where
  "min3 a b = (case a of (ax, ay, az) \<Rightarrow> case b of (bx, by, bz) \<Rightarrow>
     (min ax bx, min ay by, min az bz))"

definition max3 :: "float3 \<Rightarrow> float3 \<Rightarrow> float3" where
  "max3 a b = (case a of (ax, ay, az) \<Rightarrow> case b of (bx, by, bz) \<Rightarrow>
     (max ax bx, max ay by, max az bz))"

definition isfinite_safe :: "float3 option \<Rightarrow> bool" where
  "isfinite_safe pt = (pt \<noteq> None)"

fun grow :: "BoundBox \<Rightarrow> float3 option \<Rightarrow> BoundBox" where
  "grow b None = BoundBox_nonfinite"
| "grow BoundBox_empty (Some p) = Box p p"
| "grow (Box lo hi) (Some p) = Box (min3 lo p) (max3 hi p)"
| "grow BoundBox_nonfinite (Some p) = BoundBox_nonfinite"

definition grow_safe :: "BoundBox \<Rightarrow> float3 option \<Rightarrow> BoundBox" where
  "grow_safe b pt = (if isfinite_safe pt then grow b pt else b)"

fun valid :: "BoundBox \<Rightarrow> bool" where
  "valid (Box lo hi) = True"
| "valid b = False"

definition zero_float3 :: float3 where
  "zero_float3 = (0, 0, 0)"

text \<open>
  Modelled from the spec: the attribute store (\<^verbatim>\<open>scene/attribute.h\<close>) is not among the
  sources. The spec gives its interface: \<^verbatim>\<open>find(key)\<close> returns an optional buffer,
  \<^verbatim>\<open>add(key)\<close> a buffer for the key, and the keys are a closed set of well-known names.
  A store is a map from keys to buffers of points.
\<close>

datatype AttributeStandard =
  ATTR_STD_VERTEX_NORMAL
| ATTR_STD_MOTION_VERTEX_POSITION
| ATTR_STD_MOTION_VERTEX_NORMAL
| ATTR_STD_POSITION_UNDISPLACED
| ATTR_STD_UV

type_synonym 'v AttributeSet = "AttributeStandard \<rightharpoonup> 'v list"

definition AttributeSet_find :: "'v AttributeSet \<Rightarrow> AttributeStandard \<Rightarrow> 'v list option" where
  "AttributeSet_find attrs std = attrs std"

section \<open>The mesh\<close>

datatype SubdivisionType = SUBDIVISION_NONE | SUBDIVISION_LINEAR | SUBDIVISION_CATMULL_CLARK

text \<open>
  The fields of \<^verbatim>\<open>Mesh\<close> that the functions below read or write, with those it inherits
  from \<^verbatim>\<open>Geometry\<close> (\<^verbatim>\<open>use_motion_blur\<close>, \<^verbatim>\<open>motion_steps\<close>, \<^verbatim>\<open>transform_negative_scaled\<close>,
  \<^verbatim>\<open>bounds\<close>, \<^verbatim>\<open>attributes\<close>). The record is polymorphic in the type of a stored point:
  the passes that compute with coordinates take points with real coordinates,
  \<^verbatim>\<open>compute_bounds\<close>, whose subject is non-finite input, takes optional ones. The
  change-tracking flags that the \<^verbatim>\<open>tag_..._modified\<close> calls set are not part of the
  record.
\<close>

record 'v Mesh =
  verts :: "'v array"
  triangles :: "int32 array"
  shader :: "int32 array"
  smooth :: "bool array"
  subd_start_corner :: "int32 array"
  subd_num_corners :: "int32 array"
  subd_shader :: "int32 array"
  subd_smooth :: "bool array"
  subd_ptex_offset :: "int32 array"
  subd_face_corners :: "int32 array"
  subd_creases_edge :: "int32 array"
  subd_creases_weight :: "real array"
  subd_vert_creases :: "int32 array"
  subd_vert_creases_weight :: "real array"
  num_subd_faces :: nat
  subdivision_type :: SubdivisionType
  attributes :: "'v AttributeSet"
  subd_attributes :: "'v AttributeSet"
  use_motion_blur :: bool
  motion_steps :: uint32
  transform_negative_scaled :: bool
  bounds :: BoundBox

text \<open>The state the constructor \<^verbatim>\<open>Mesh::Mesh\<close> leaves, with the defaults of \<^verbatim>\<open>Geometry\<close>.\<close>

definition Mesh_new :: "'v Mesh" where
  "Mesh_new = \<lparr>verts = array_empty, triangles = array_empty, shader = array_empty,
     smooth = array_empty, subd_start_corner = array_empty, subd_num_corners = array_empty,
     subd_shader = array_empty, subd_smooth = array_empty, subd_ptex_offset = array_empty,
     subd_face_corners = array_empty, subd_creases_edge = array_empty,
     subd_creases_weight = array_empty, subd_vert_creases = array_empty,
     subd_vert_creases_weight = array_empty, num_subd_faces = 0,
     subdivision_type = SUBDIVISION_NONE, attributes = Map.empty,
     subd_attributes = Map.empty, use_motion_blur = False, motion_steps = 3,
     transform_negative_scaled = False, bounds = BoundBox_empty\<rparr>"

subsection \<open>Motion blur\<close>

definition has_motion_blur :: "'v Mesh \<Rightarrow> bool" where
  "has_motion_blur m =
     (use_motion_blur m \<and>
      (AttributeSet_find (attributes m) ATTR_STD_MOTION_VERTEX_POSITION \<noteq> None \<or>
       (subdivision_type m \<noteq> SUBDIVISION_NONE \<and>
        AttributeSet_find (subd_attributes m) ATTR_STD_MOTION_VERTEX_POSITION \<noteq> None)))"

text \<open>
  The spec's wording of the same test: the attribute is looked up on the active domain,
  which is the subdivision domain when subdivision is enabled and that domain has the
  attribute, and the triangle domain otherwise.
\<close>

datatype AttributePrimitive = ATTR_PRIM_GEOMETRY | ATTR_PRIM_SUBD

definition active_domain_spec :: "'v Mesh \<Rightarrow> AttributePrimitive" where
  "active_domain_spec m =
     (if subdivision_type m \<noteq> SUBDIVISION_NONE \<and>
         AttributeSet_find (subd_attributes m) ATTR_STD_MOTION_VERTEX_POSITION \<noteq> None
      then ATTR_PRIM_SUBD else ATTR_PRIM_GEOMETRY)"

definition domain_attributes :: "'v Mesh \<Rightarrow> AttributePrimitive \<Rightarrow> 'v AttributeSet" where
  "domain_attributes m prim =
     (case prim of ATTR_PRIM_GEOMETRY \<Rightarrow> attributes m | ATTR_PRIM_SUBD \<Rightarrow> subd_attributes m)"

definition has_motion_blur_spec :: "'v Mesh \<Rightarrow> bool" where
  "has_motion_blur_spec m =
     (use_motion_blur m \<and>
      AttributeSet_find (domain_attributes m (active_domain_spec m)) ATTR_STD_MOTION_VERTEX_POSITION \<noteq> None)"

subsection \<open>Reserving\<close>

text \<open>
  Modelled from the spec: \<^verbatim>\<open>AttributeSet::resize\<close> is not among the sources. With
  \<^verbatim>\<open>reserve_only\<close> set the store is told to make room for the reserved sizes and no
  buffer changes its content.
\<close>

definition AttributeSet_reserve :: "'v AttributeSet \<Rightarrow> 'v AttributeSet" where
  "AttributeSet_reserve attrs = attrs"

text \<open>The arguments of the reserving functions are the sizes asked for.\<close>

definition reserve_mesh :: "nat \<Rightarrow> nat \<Rightarrow> 'v Mesh \<Rightarrow> 'v Mesh" where
  "reserve_mesh numverts numtris m =
     m\<lparr>verts := reserve numverts (verts m),
       triangles := reserve (numtris * 3) (triangles m),
       shader := reserve numtris (shader m),
       smooth := reserve numtris (smooth m),
       attributes := AttributeSet_reserve (attributes m)\<rparr>"

definition reserve_subd_faces :: "nat \<Rightarrow> nat \<Rightarrow> 'v Mesh \<Rightarrow> 'v Mesh" where
  "reserve_subd_faces numfaces numcorners m =
     m\<lparr>subd_start_corner := reserve numfaces (subd_start_corner m),
       subd_num_corners := reserve numfaces (subd_num_corners m),
       subd_shader := reserve numfaces (subd_shader m),
       subd_smooth := reserve numfaces (subd_smooth m),
       subd_ptex_offset := reserve numfaces (subd_ptex_offset m),
       subd_face_corners := reserve numcorners (subd_face_corners m),
       num_subd_faces := numfaces,
       subd_attributes := AttributeSet_reserve (subd_attributes m)\<rparr>"

definition reserve_subd_creases :: "nat \<Rightarrow> 'v Mesh \<Rightarrow> 'v Mesh" where
  "reserve_subd_creases num_creases m =
     m\<lparr>subd_creases_edge := reserve (num_creases * 2) (subd_creases_edge m),
       subd_creases_weight := reserve num_creases (subd_creases_weight m)\<rparr>"

text \<open>The logical sizes of a mesh: the sizes of its arrays and the stored face count.\<close>

definition array_sizes :: "'v Mesh \<Rightarrow> nat list" where
  "array_sizes m =
     [size_of (verts m), size_of (triangles m), size_of (shader m), size_of (smooth m),
      size_of (subd_start_corner m), size_of (subd_num_corners m), size_of (subd_shader m),
      size_of (subd_smooth m), size_of (subd_ptex_offset m), size_of (subd_face_corners m),
      size_of (subd_creases_edge m), size_of (subd_creases_weight m),
      size_of (subd_vert_creases m), size_of (subd_vert_creases_weight m)]"

definition logical_sizes :: "'v Mesh \<Rightarrow> nat list" where
  "logical_sizes m = num_subd_faces m # array_sizes m"

subsection \<open>Incremental construction\<close>

definition add_vertex :: "'v \<Rightarrow> 'v Mesh \<Rightarrow> error + 'v Mesh" where
  "add_vertex P m = bind (push_back_reserved P (verts m)) (\<lambda>a. Inr (m\<lparr>verts := a\<rparr>))"

definition add_vertex_slow :: "'v \<Rightarrow> 'v Mesh \<Rightarrow> 'v Mesh" where
  "add_vertex_slow P m = m\<lparr>verts := push_back_slow P (verts m)\<rparr>"

definition add_triangle ::
  "int32 \<Rightarrow> int32 \<Rightarrow> int32 \<Rightarrow> int32 \<Rightarrow> bool \<Rightarrow> 'v Mesh \<Rightarrow> error + 'v Mesh" where
  "add_triangle v0 v1 v2 shader' smooth' m =
     bind (push_back_reserved v0 (triangles m)) (\<lambda>t0.
     bind (push_back_reserved v1 t0) (\<lambda>t1.
     bind (push_back_reserved v2 t1) (\<lambda>t2.
     bind (push_back_reserved shader' (shader m)) (\<lambda>sh.
     bind (push_back_reserved smooth' (smooth m)) (\<lambda>sm.
     Inr (m\<lparr>triangles := t2, shader := sh, smooth := sm\<rparr>))))))"

record SubdFace =
  start_corner :: int32
  num_corners :: int32
  f_shader :: int32
  f_smooth :: bool
  ptex_offset :: int32

text \<open>
  Modelled from the spec: \<^verbatim>\<open>SubdFace::num_ptex_faces\<close> is declared in \<^verbatim>\<open>scene/mesh.h\<close>,
  which is not among the sources. The spec: 1 if \<^verbatim>\<open>num_corners == 4\<close>, else
  \<^verbatim>\<open>num_corners\<close>.
\<close>

definition num_ptex_faces :: "SubdFace \<Rightarrow> int32" where
  "num_ptex_faces s = (if num_corners s = 4 then 1 else num_corners s)"

definition get_subd_face :: "nat \<Rightarrow> 'v Mesh \<Rightarrow> error + SubdFace" where
  "get_subd_face index m =
     bind (array_at (subd_shader m) index) (\<lambda>sh.
     bind (array_at (subd_num_corners m) index) (\<lambda>nc.
     bind (array_at (subd_smooth m) index) (\<lambda>sm.
     bind (array_at (subd_ptex_offset m) index) (\<lambda>po.
     bind (array_at (subd_start_corner m) index) (\<lambda>sc.
     Inr \<lparr>start_corner = sc, num_corners = nc, f_shader = sh, f_smooth = sm,
          ptex_offset = po\<rparr>)))))"

text \<open>
  The loop \<^verbatim>\<open>for (int i = 0; i < num_corners; i++)\<close> of \<^verbatim>\<open>add_subd_face\<close>, over the
  indices it visits: \<open>[0..<nat (sint num_corners)]\<close>, none when \<^verbatim>\<open>num_corners\<close> is not
  positive.
\<close>

fun push_corners :: "int32 list \<Rightarrow> nat list \<Rightarrow> int32 array \<Rightarrow> error + int32 array" where
  "push_corners corners [] a = Inr a"
| "push_corners corners (i # is) a =
     bind (read_at corners (int i)) (\<lambda>c.
     bind (push_back_reserved c a) (push_corners corners is))"

definition add_subd_face ::
  "int32 list \<Rightarrow> int32 \<Rightarrow> int32 \<Rightarrow> bool \<Rightarrow> 'v Mesh \<Rightarrow> error + 'v Mesh" where
  "add_subd_face corners num_corners' shader' smooth' m =
     (let start_corner' = (of_nat (size_of (subd_face_corners m)) :: int32) in
      bind (push_corners corners [0..<nat (sint num_corners')] (subd_face_corners m)) (\<lambda>fc.
      bind (if size_of (subd_shader m) \<noteq> 0
            then bind (get_subd_face (size_of (subd_shader m) - 1) m)
                   (\<lambda>s. Inr (ptex_offset s + num_ptex_faces s))
            else Inr 0) (\<lambda>ptex_offset'.
      bind (push_back_reserved start_corner' (subd_start_corner m)) (\<lambda>a1.
      bind (push_back_reserved num_corners' (subd_num_corners m)) (\<lambda>a2.
      bind (push_back_reserved shader' (subd_shader m)) (\<lambda>a3.
      bind (push_back_reserved smooth' (subd_smooth m)) (\<lambda>a4.
      bind (push_back_reserved ptex_offset' (subd_ptex_offset m)) (\<lambda>a5.
      Inr (m\<lparr>subd_face_corners := fc, subd_start_corner := a1, subd_num_corners := a2,
             subd_shader := a3, subd_smooth := a4, subd_ptex_offset := a5\<rparr>)))))))))"

definition add_edge_crease :: "int32 \<Rightarrow> int32 \<Rightarrow> real \<Rightarrow> 'v Mesh \<Rightarrow> 'v Mesh" where
  "add_edge_crease v0 v1 weight m =
     m\<lparr>subd_creases_edge := push_back_slow v1 (push_back_slow v0 (subd_creases_edge m)),
       subd_creases_weight := push_back_slow weight (subd_creases_weight m)\<rparr>"

definition add_vertex_crease :: "int32 \<Rightarrow> real \<Rightarrow> 'v Mesh \<Rightarrow> 'v Mesh" where
  "add_vertex_crease v weight m =
     m\<lparr>subd_vert_creases := push_back_slow v (subd_vert_creases m),
       subd_vert_creases_weight := push_back_slow weight (subd_vert_creases_weight m)\<rparr>"

text \<open>
  Sequences of calls. A call is one of the appending or reserving member functions
  with its arguments; a sequence runs from left to right and stops at the first error.
\<close>

datatype 'v call =
  Add_vertex 'v
| Add_vertex_slow 'v
| Add_triangle int32 int32 int32 int32 bool
| Add_subd_face "int32 list" int32 int32 bool
| Add_edge_crease int32 int32 real
| Add_vertex_crease int32 real
| Reserve_mesh nat nat
| Reserve_subd_faces nat nat
| Reserve_subd_creases nat

fun run_call :: "'v call \<Rightarrow> 'v Mesh \<Rightarrow> error + 'v Mesh" where
  "run_call (Add_vertex P) m = add_vertex P m"
| "run_call (Add_vertex_slow P) m = Inr (add_vertex_slow P m)"
| "run_call (Add_triangle v0 v1 v2 sh sm) m = add_triangle v0 v1 v2 sh sm m"
| "run_call (Add_subd_face cs n sh sm) m = add_subd_face cs n sh sm m"
| "run_call (Add_edge_crease v0 v1 w) m = Inr (add_edge_crease v0 v1 w m)"
| "run_call (Add_vertex_crease v w) m = Inr (add_vertex_crease v w m)"
| "run_call (Reserve_mesh nv nt) m = Inr (reserve_mesh nv nt m)"
| "run_call (Reserve_subd_faces nf nc) m = Inr (reserve_subd_faces nf nc m)"
| "run_call (Reserve_subd_creases n) m = Inr (reserve_subd_creases n m)"

fun run_calls :: "'v call list \<Rightarrow> 'v Mesh \<Rightarrow> error + 'v Mesh" where
  "run_calls [] m = Inr m"
| "run_calls (c # cs) m = bind (run_call c m) (run_calls cs)"

text \<open>A subdivision face as the arguments of one \<^verbatim>\<open>add_subd_face\<close> call.\<close>

type_synonym face_args = "int32 list \<times> int32 \<times> int32 \<times> bool"

fun add_subd_faces :: "face_args list \<Rightarrow> 'v Mesh \<Rightarrow> error + 'v Mesh" where
  "add_subd_faces [] m = Inr m"
| "add_subd_faces ((cs, n, sh, sm) # fs) m = bind (add_subd_face cs n sh sm m) (add_subd_faces fs)"

text \<open>The ptex-face count of a face with \<open>n\<close> corners.\<close>

definition ptex_faces_of :: "int32 \<Rightarrow> int32" where
  "ptex_faces_of n = (if n = 4 then 1 else n)"

text \<open>The triangle arrays are in step: three indices per shader and per smooth entry.\<close>

definition triangle_invariant :: "'v Mesh \<Rightarrow> bool" where
  "triangle_invariant m =
     (size_of (triangles m) = 3 * size_of (shader m) \<and>
      size_of (triangles m) = 3 * size_of (smooth m))"

text \<open>
  The ptex offsets the spec prescribes for faces with the given corner counts: the offset
  of face \<open>i\<close> is the sum of the ptex-face counts of the faces before it.
\<close>

definition ptex_offsets_spec :: "int32 list \<Rightarrow> int32 list" where
  "ptex_offsets_spec ncs = map (\<lambda>i. sum_list (map ptex_faces_of (take i ncs))) [0..<length ncs]"

definition ncorners :: "face_args \<Rightarrow> int32" where
  "ncorners f = fst (snd f)"

definition faces_consistent :: "'v Mesh \<Rightarrow> bool" where
  "faces_consistent m =
     (size_of (subd_start_corner m) = size_of (subd_shader m) \<and>
      size_of (subd_num_corners m) = size_of (subd_shader m) \<and>
      size_of (subd_smooth m) = size_of (subd_shader m) \<and>
      size_of (subd_ptex_offset m) = size_of (subd_shader m))"

definition subd_faces_empty :: "'v Mesh \<Rightarrow> bool" where
  "subd_faces_empty m =
     (size_of (subd_start_corner m) = 0 \<and> size_of (subd_num_corners m) = 0 \<and>
      size_of (subd_shader m) = 0 \<and> size_of (subd_smooth m) = 0 \<and>
      size_of (subd_ptex_offset m) = 0)"

text \<open>
  Enough was reserved for the faces \<open>fs\<close>, and every call passes at least as many corner
  indices as it announces.
\<close>

definition has_room :: "face_args list \<Rightarrow> 'v Mesh \<Rightarrow> bool" where
  "has_room fs m =
     (size_of (subd_start_corner m) + length fs \<le> capacity (subd_start_corner m) \<and>
      size_of (subd_num_corners m) + length fs \<le> capacity (subd_num_corners m) \<and>
      size_of (subd_shader m) + length fs \<le> capacity (subd_shader m) \<and>
      size_of (subd_smooth m) + length fs \<le> capacity (subd_smooth m) \<and>
      size_of (subd_ptex_offset m) + length fs \<le> capacity (subd_ptex_offset m) \<and>
      size_of (subd_face_corners m) + sum_list (map (\<lambda>f. nat (sint (ncorners f))) fs)
        \<le> capacity (subd_face_corners m) \<and>
      list_all (\<lambda>f. nat (sint (ncorners f)) \<le> length (fst f)) fs)"

subsection \<open>Packing shader ids\<close>

text \<open>
  Modelled from the spec: \<^verbatim>\<open>Mesh::num_triangles\<close> is declared in \<^verbatim>\<open>scene/mesh.h\<close>, which
  is not among the sources. The spec: a triangle is three vertex indices, stored
  flattened in the index array (\<^verbatim>\<open>3 * triangle_count\<close> integers).
\<close>

definition num_triangles :: "'v Mesh \<Rightarrow> nat" where
  "num_triangles m = size_of (triangles m) div 3"

text \<open>
  Modelled from the spec: \<^verbatim>\<open>array<T>::data\<close> is not among the sources. An array with
  reserved capacity has storage; the pointer is null when the array has none, and else
  points to the stored elements, of which those below the logical size can be read.
\<close>

definition data :: "'a array \<Rightarrow> 'a list option" where
  "data a = (if capacity a = 0 then None else Some (items a))"

definition INT_MAX :: int32 where
  "INT_MAX = 2147483647"

text \<open>
  The loop of \<^verbatim>\<open>pack_shaders\<close> over the triangle indices it visits, with the variables
  \<^verbatim>\<open>shader_id\<close>, \<^verbatim>\<open>last_shader\<close> and \<^verbatim>\<open>last_smooth\<close> it carries; the result is what it
  writes to \<^verbatim>\<open>tri_shader\<close>. The scene's shader list, its default surface shader and the
  shader manager's \<^verbatim>\<open>get_shader_id\<close> are parameters. Comparing the \<^verbatim>\<open>int\<close> \<^verbatim>\<open>new_shader\<close>
  with the \<^verbatim>\<open>uint\<close> \<^verbatim>\<open>last_shader\<close> converts the former, which keeps its bits.
\<close>

fun pack_shaders_loop ::
  "'sh list \<Rightarrow> 'sh \<Rightarrow> ('sh \<Rightarrow> bool \<Rightarrow> uint32) \<Rightarrow> int32 list option \<Rightarrow> bool list option \<Rightarrow>
   nat list \<Rightarrow> uint32 \<Rightarrow> uint32 \<Rightarrow> bool \<Rightarrow> error + uint32 list" where
  "pack_shaders_loop used_shaders default_surface get_shader_id shader_ptr smooth_ptr []
     shader_id last_shader last_smooth = Inr []"
| "pack_shaders_loop used_shaders default_surface get_shader_id shader_ptr smooth_ptr (i # rest)
     shader_id last_shader last_smooth =
     bind (case shader_ptr of None \<Rightarrow> Inr INT_MAX | Some xs \<Rightarrow> read_at xs (int i))
       (\<lambda>new_shader.
     bind (case smooth_ptr of None \<Rightarrow> Inr False | Some xs \<Rightarrow> read_at xs (int i))
       (\<lambda>new_smooth.
     if new_shader \<noteq> last_shader \<or> last_smooth \<noteq> new_smooth
     then (let shader' = (if unat new_shader < length used_shaders
                          then used_shaders ! unat new_shader else default_surface);
               shader_id' = get_shader_id shader' new_smooth
           in bind (pack_shaders_loop used_shaders default_surface get_shader_id shader_ptr
                      smooth_ptr rest shader_id' new_shader new_smooth)
                (\<lambda>out. Inr (shader_id' # out)))
     else bind (pack_shaders_loop used_shaders default_surface get_shader_id shader_ptr
                  smooth_ptr rest shader_id last_shader last_smooth)
            (\<lambda>out. Inr (shader_id # out))))"

definition pack_shaders ::
  "'sh list \<Rightarrow> 'sh \<Rightarrow> ('sh \<Rightarrow> bool \<Rightarrow> uint32) \<Rightarrow> 'v Mesh \<Rightarrow> error + uint32 list" where
  "pack_shaders used_shaders default_surface get_shader_id m =
     pack_shaders_loop used_shaders default_surface get_shader_id
       (data (shader m)) (data (smooth m)) [0..<num_triangles m] 0 (- 1) False"

text \<open>
  The id the spec prescribes for one triangle: the id resolved from the indexed shader
  when the index is valid for the list, from the default surface shader otherwise, with
  the triangle's smooth flag.
\<close>

definition resolved_id :: "'sh list \<Rightarrow> 'sh \<Rightarrow> ('sh \<Rightarrow> bool \<Rightarrow> uint32) \<Rightarrow> int32 \<Rightarrow> bool \<Rightarrow> uint32" where
  "resolved_id used_shaders default_surface get_shader_id sh sm =
     get_shader_id (if unat sh < length used_shaders then used_shaders ! unat sh
                    else default_surface) sm"

section \<open>Triangles and subdivision faces\<close>

text \<open>
  Vector arithmetic on \<^verbatim>\<open>float3\<close> (\<^verbatim>\<open>util/math_float3.h\<close>), over the reals. A division
  whose divisor is zero has no finite result (the \<^verbatim>\<open>float\<close> result is NaN or infinite)
  and is an error of the model.
\<close>

definition add3 :: "float3 \<Rightarrow> float3 \<Rightarrow> float3" where
  "add3 a b = (case a of (ax, ay, az) \<Rightarrow> case b of (bx, by, bz) \<Rightarrow> (ax + bx, ay + by, az + bz))"

definition sub3 :: "float3 \<Rightarrow> float3 \<Rightarrow> float3" where
  "sub3 a b = (case a of (ax, ay, az) \<Rightarrow> case b of (bx, by, bz) \<Rightarrow> (ax - bx, ay - by, az - bz))"

definition scale3 :: "real \<Rightarrow> float3 \<Rightarrow> float3" where
  "scale3 f a = (case a of (ax, ay, az) \<Rightarrow> (f * ax, f * ay, f * az))"

definition neg3 :: "float3 \<Rightarrow> float3" where
  "neg3 a = (case a of (ax, ay, az) \<Rightarrow> (- ax, - ay, - az))"

definition cross :: "float3 \<Rightarrow> float3 \<Rightarrow> float3" where
  "cross a b = (case a of (ax, ay, az) \<Rightarrow> case b of (bx, by, bz) \<Rightarrow>
     (ay * bz - az * by, az * bx - ax * bz, ax * by - ay * bx))"

definition len3 :: "float3 \<Rightarrow> real" where
  "len3 a = (case a of (ax, ay, az) \<Rightarrow> sqrt (ax * ax + ay * ay + az * az))"

definition div3 :: "float3 \<Rightarrow> real \<Rightarrow> error + float3" where
  "div3 a f = (case a of (ax, ay, az) \<Rightarrow>
     if f = 0 then Inl DivisionByZero else Inr (ax / f, ay / f, az / f))"

text \<open>
  Modelled from the spec: \<^verbatim>\<open>normalize\<close> (\<^verbatim>\<open>util/math_float3.h\<close>) is not among the sources.
  The spec uses it for the vector divided by its length, with no fallback of its own for
  a vector of length zero.
\<close>

definition normalize :: "float3 \<Rightarrow> error + float3" where
  "normalize a = div3 a (len3 a)"

text \<open>
  A raw pointer into an array of points: the allocation and the position in it. An
  index is added to the position; a read outside the allocation is an error.
\<close>

type_synonym 'a ptr = "'a list \<times> nat"

definition read_ptr :: "'a ptr \<Rightarrow> int \<Rightarrow> error + 'a" where
  "read_ptr p i = read_at (fst p) (int (snd p) + i)"

text \<open>
  Arithmetic of \<^verbatim>\<open>size_t\<close>, 64 bits wide: subtraction and addition wrap around, an
  \<^verbatim>\<open>int\<close> is converted modulo \<open>2 ^ 64\<close>, and the conversion of a \<^verbatim>\<open>float\<close> truncates
  and is undefined outside the range of the type.
\<close>

definition size_t_sub :: "nat \<Rightarrow> nat \<Rightarrow> nat" where
  "size_t_sub a b = (a + 2 ^ 64 - b) mod 2 ^ 64"

definition size_t_add :: "nat \<Rightarrow> nat \<Rightarrow> nat" where
  "size_t_add a b = (a + b) mod 2 ^ 64"

definition size_t_mul :: "nat \<Rightarrow> nat \<Rightarrow> nat" where
  "size_t_mul a b = (a * b) mod 2 ^ 64"

definition size_t_of_int :: "int \<Rightarrow> nat" where
  "size_t_of_int i = nat (i mod 2 ^ 64)"

definition size_t_of_float :: "real \<Rightarrow> error + nat" where
  "size_t_of_float x =
     (if - 1 < x \<and> x < 2 ^ 64 then Inr (nat \<lfloor>x\<rfloor>) else Inl CastOutOfRange)"

text \<open>A triangle is its three vertex indices \<^verbatim>\<open>v[0]\<close>, \<^verbatim>\<open>v[1]\<close>, \<^verbatim>\<open>v[2]\<close>.\<close>

type_synonym Triangle = "int32 \<times> int32 \<times> int32"

definition verts_for_step ::
  "Triangle \<Rightarrow> float3 ptr \<Rightarrow> float3 ptr \<Rightarrow> nat \<Rightarrow> nat \<Rightarrow> nat \<Rightarrow>
   error + (float3 \<times> float3 \<times> float3)" where
  "verts_for_step tri verts_p vert_steps num_verts num_steps step =
     (case tri of (v0, v1, v2) \<Rightarrow>
      let center_step = size_t_sub num_steps 1 div 2 in
      if step = center_step then
        bind (read_ptr verts_p (sint v0)) (\<lambda>r0.
        bind (read_ptr verts_p (sint v1)) (\<lambda>r1.
        bind (read_ptr verts_p (sint v2)) (\<lambda>r2.
        Inr (r0, r1, r2))))
      else
        let step' = (if step > center_step then size_t_sub step 1 else step);
            offset = size_t_mul step' num_verts
        in
        bind (read_ptr vert_steps (int (size_t_add offset (size_t_of_int (sint v0))))) (\<lambda>r0.
        bind (read_ptr vert_steps (int (size_t_add offset (size_t_of_int (sint v1))))) (\<lambda>r1.
        bind (read_ptr vert_steps (int (size_t_add offset (size_t_of_int (sint v2))))) (\<lambda>r2.
        Inr (r0, r1, r2)))))"

definition motion_verts ::
  "Triangle \<Rightarrow> float3 ptr \<Rightarrow> float3 ptr \<Rightarrow> nat \<Rightarrow> nat \<Rightarrow> real \<Rightarrow>
   error + (float3 \<times> float3 \<times> float3)" where
  "motion_verts tri verts_p vert_steps num_verts num_steps time =
     (let max_step = size_t_sub num_steps 1 in
      bind (size_t_of_float (time * real max_step)) (\<lambda>s.
      let step = min s (size_t_sub max_step 1);
          t = time * real max_step - real step
      in
      bind (verts_for_step tri verts_p vert_steps num_verts num_steps step) (\<lambda>curr_verts.
      bind (verts_for_step tri verts_p vert_steps num_verts num_steps (size_t_add step 1))
        (\<lambda>next_verts.
      case curr_verts of (c0, c1, c2) \<Rightarrow> case next_verts of (n0, n1, n2) \<Rightarrow>
      Inr (add3 (scale3 (1 - t) c0) (scale3 t n0),
           add3 (scale3 (1 - t) c1) (scale3 t n1),
           add3 (scale3 (1 - t) c2) (scale3 t n2))))))"

definition compute_normal :: "Triangle \<Rightarrow> float3 ptr \<Rightarrow> error + float3" where
  "compute_normal tri verts_p =
     (case tri of (i0, i1, i2) \<Rightarrow>
      bind (read_ptr verts_p (sint i0)) (\<lambda>v0.
      bind (read_ptr verts_p (sint i1)) (\<lambda>v1.
      bind (read_ptr verts_p (sint i2)) (\<lambda>v2.
      let norm = cross (sub3 v1 v0) (sub3 v2 v0);
          normlen = len3 norm
      in if normlen = 0 then Inr (1, 0, 0) else div3 norm normlen))))"

text \<open>
  Indexing an \<^verbatim>\<open>array<T>\<close> with an \<^verbatim>\<open>int\<close>: the index is converted to \<^verbatim>\<open>size_t\<close>.
\<close>

definition array_at_int :: "'a array \<Rightarrow> int32 \<Rightarrow> error + 'a" where
  "array_at_int a i = array_at a (size_t_of_int (sint i))"

text \<open>
  \<^verbatim>\<open>SubdFace::normal\<close>. The source hands the cross product to \<^verbatim>\<open>safe_normalize\<close>, a
  function of \<^verbatim>\<open>util/math_float3.h\<close> that is not among the sources; it is a parameter
  here, and given below.
\<close>

definition SubdFace_normal ::
  "(float3 \<Rightarrow> error + float3) \<Rightarrow> SubdFace \<Rightarrow> float3 Mesh \<Rightarrow> error + float3" where
  "SubdFace_normal safe_normalize face mesh =
     bind (array_at_int (subd_face_corners mesh) (start_corner face + 0)) (\<lambda>c0.
     bind (array_at_int (verts mesh) c0) (\<lambda>v0.
     bind (array_at_int (subd_face_corners mesh) (start_corner face + 1)) (\<lambda>c1.
     bind (array_at_int (verts mesh) c1) (\<lambda>v1.
     bind (array_at_int (subd_face_corners mesh) (start_corner face + 2)) (\<lambda>c2.
     bind (array_at_int (verts mesh) c2) (\<lambda>v2.
     safe_normalize (cross (sub3 v1 v0) (sub3 v2 v0))))))))"

text \<open>
  The temporal sample \<open>s\<close> of a triangle as the spec's data model lays it out: the center
  sample \<open>(num_steps - 1) div 2\<close> is the vertex array itself, any other sample is in the
  motion buffer at the offset \<open>(if s < center then s else s - 1) * num_verts\<close>.
\<close>

definition sample_spec ::
  "Triangle \<Rightarrow> float3 list \<Rightarrow> float3 list \<Rightarrow> nat \<Rightarrow> nat \<Rightarrow> nat \<Rightarrow> float3 \<times> float3 \<times> float3" where
  "sample_spec tri verts_p vert_steps num_verts num_steps s =
     (case tri of (v0, v1, v2) \<Rightarrow>
      let center = (num_steps - 1) div 2 in
      if s = center
      then (verts_p ! nat (sint v0), verts_p ! nat (sint v1), verts_p ! nat (sint v2))
      else let offset = (if s < center then s else s - 1) * num_verts in
        (vert_steps ! (offset + nat (sint v0)), vert_steps ! (offset + nat (sint v1)),
         vert_steps ! (offset + nat (sint v2))))"

definition blend_spec ::
  "real \<Rightarrow> float3 \<times> float3 \<times> float3 \<Rightarrow> float3 \<times> float3 \<times> float3 \<Rightarrow> float3 \<times> float3 \<times> float3" where
  "blend_spec t a b =
     (case a of (a0, a1, a2) \<Rightarrow> case b of (b0, b1, b2) \<Rightarrow>
      (add3 (scale3 (1 - t) a0) (scale3 t b0),
       add3 (scale3 (1 - t) a1) (scale3 t b1),
       add3 (scale3 (1 - t) a2) (scale3 t b2)))"

definition tri_in_range :: "Triangle \<Rightarrow> nat \<Rightarrow> bool" where
  "tri_in_range tri num_verts =
     (case tri of (v0, v1, v2) \<Rightarrow>
      0 \<le> sint v0 \<and> nat (sint v0) < num_verts \<and>
      0 \<le> sint v1 \<and> nat (sint v1) < num_verts \<and>
      0 \<le> sint v2 \<and> nat (sint v2) < num_verts)"

text \<open>
  \<^verbatim>\<open>safe_normalize\<close> (\<^verbatim>\<open>util/math_float3.h\<close>) is not among the sources, and the spec does
  not describe it. In Cycles it is \<^verbatim>\<open>(t != 0.0f) ? a * (1.0f / t) : a\<close> with
  \<^verbatim>\<open>t = len(a)\<close>: the vector scaled by the inverse of its length, and the vector itself,
  unchanged, when its length is zero.
\<close>

definition safe_normalize :: "float3 \<Rightarrow> error + float3" where
  "safe_normalize a = (let t = len3 a in if t \<noteq> 0 then Inr (scale3 (1 / t) a) else Inr a)"







subsection \<open>The range of float\<close>





















section \<open>Derived data\<close>

subsection \<open>Vertex normals\<close>

text \<open>
  Modelled from the spec: \<^verbatim>\<open>AttributeSet::add\<close> is not among the sources. It returns a
  buffer for the key, which the caller fills; the buffer of a per-vertex attribute has
  one element per vertex, that of a motion attribute \<^verbatim>\<open>num_verts * (num_steps - 1)\<close>. The
  model stores the filled buffer under the key.
\<close>

definition AttributeSet_add :: "'v AttributeSet \<Rightarrow> AttributeStandard \<Rightarrow> 'v list \<Rightarrow> 'v AttributeSet" where
  "AttributeSet_add attrs std buffer = attrs(std \<mapsto> buffer)"

text \<open>
  Modelled from the spec: \<^verbatim>\<open>Mesh::get_num_subd_faces\<close> is declared in \<^verbatim>\<open>scene/mesh.h\<close>; by
  the comment in \<^verbatim>\<open>add_subd_face\<close> it holds the total number of faces, the stored field.
\<close>

definition get_num_subd_faces :: "'v Mesh \<Rightarrow> nat" where
  "get_num_subd_faces m = num_subd_faces m"

text \<open>
  Modelled from the spec: \<^verbatim>\<open>Mesh::get_triangle\<close> (\<^verbatim>\<open>scene/mesh.h\<close>) is not among the
  sources; triangle \<open>i\<close> is the three indices at \<open>3 * i\<close>, \<open>3 * i + 1\<close> and \<open>3 * i + 2\<close> of
  the flattened index array.
\<close>

definition get_triangle :: "nat \<Rightarrow> 'v Mesh \<Rightarrow> error + Triangle" where
  "get_triangle i m =
     bind (array_at (triangles m) (i * 3 + 0)) (\<lambda>v0.
     bind (array_at (triangles m) (i * 3 + 1)) (\<lambda>v1.
     bind (array_at (triangles m) (i * 3 + 2)) (\<lambda>v2.
     Inr (v0, v1, v2))))"

definition write_ptr :: "'a ptr \<Rightarrow> int \<Rightarrow> 'a \<Rightarrow> error + 'a ptr" where
  "write_ptr p i x =
     (if 0 \<le> int (snd p) + i \<and> int (snd p) + i < int (length (fst p))
      then Inr ((fst p)[nat (int (snd p) + i) := x], snd p) else Inl OutOfBounds)"

text \<open>\<^verbatim>\<open>std::fill_n(p, n, x)\<close>.\<close>

fun fill_n :: "'a ptr \<Rightarrow> nat list \<Rightarrow> 'a \<Rightarrow> error + 'a ptr" where
  "fill_n p [] x = Inr p"
| "fill_n p (i # rest) x = bind (write_ptr p (int i) x) (\<lambda>p'. fill_n p' rest x)"

text \<open>\<^verbatim>\<open>vN[index] += fN\<close>.\<close>

definition add_at :: "float3 ptr \<Rightarrow> int \<Rightarrow> float3 \<Rightarrow> error + float3 ptr" where
  "add_at vN index fN = bind (read_ptr vN index) (\<lambda>x. write_ptr vN index (add3 x fN))"

text \<open>
  The loop over the triangles that adds each face normal to the three vertices of its
  triangle; the positions are read through \<open>P\<close>.
\<close>

fun accumulate_triangles :: "float3 Mesh \<Rightarrow> float3 ptr \<Rightarrow> nat list \<Rightarrow> float3 ptr \<Rightarrow> error + float3 ptr" where
  "accumulate_triangles m P [] vN = Inr vN"
| "accumulate_triangles m P (i # rest) vN =
     bind (get_triangle i m) (\<lambda>tri.
     bind (compute_normal tri P) (\<lambda>fN.
     bind (add_at vN (sint (fst tri)) fN) (\<lambda>vN0.
     bind (add_at vN0 (sint (fst (snd tri))) fN) (\<lambda>vN1.
     bind (add_at vN1 (sint (snd (snd tri))) fN) (\<lambda>vN2.
     accumulate_triangles m P rest vN2)))))"

text \<open>
  The loop \<^verbatim>\<open>vN[i] = normalize(vN[i])\<close>, with the negation when \<^verbatim>\<open>flip\<close> is set. The
  function \<^verbatim>\<open>normalize\<close> of \<^verbatim>\<open>util/math_float3.h\<close> is a parameter.
\<close>

fun normalize_all ::
  "(float3 \<Rightarrow> error + float3) \<Rightarrow> bool \<Rightarrow> nat list \<Rightarrow> float3 ptr \<Rightarrow> error + float3 ptr" where
  "normalize_all nz flip [] vN = Inr vN"
| "normalize_all nz flip (i # rest) vN =
     bind (read_ptr vN (int i)) (\<lambda>x.
     bind (nz x) (\<lambda>n.
     bind (write_ptr vN (int i) (if flip then neg3 n else n)) (\<lambda>vN'.
     normalize_all nz flip rest vN')))"

definition static_normals ::
  "(float3 \<Rightarrow> error + float3) \<Rightarrow> bool \<Rightarrow> nat \<Rightarrow> nat \<Rightarrow> float3 Mesh \<Rightarrow> error + float3 Mesh" where
  "static_normals nz flip verts_size triangles_size m =
     (if AttributeSet_find (attributes m) ATTR_STD_VERTEX_NORMAL = None \<and> triangles_size \<noteq> 0
      then
        bind (fill_n (replicate (size_of (verts m)) zero_float3, 0) [0..<size_of (verts m)]
                zero_float3) (\<lambda>vN.
        bind (accumulate_triangles m (items (verts m), 0) [0..<triangles_size] vN) (\<lambda>vN.
        bind (normalize_all nz flip [0..<verts_size] vN) (\<lambda>vN.
        Inr (m\<lparr>attributes :=
               AttributeSet_add (attributes m) ATTR_STD_VERTEX_NORMAL (fst vN)\<rparr>))))
      else Inr m)"

text \<open>One motion step of the second part: the normals of the step's positions.\<close>

fun motion_steps_loop ::
  "(float3 \<Rightarrow> error + float3) \<Rightarrow> bool \<Rightarrow> nat \<Rightarrow> nat \<Rightarrow> float3 Mesh \<Rightarrow> float3 list \<Rightarrow>
   nat list \<Rightarrow> float3 list \<Rightarrow> error + float3 list" where
  "motion_steps_loop nz flip verts_size triangles_size m attr_mP [] attr_mN = Inr attr_mN"
| "motion_steps_loop nz flip verts_size triangles_size m attr_mP (step # rest) attr_mN =
     (let mP = (attr_mP, size_t_mul step (size_of (verts m)));
          mN = (attr_mN, size_t_mul step (size_of (verts m)))
      in
      bind (fill_n mN [0..<size_of (verts m)] zero_float3) (\<lambda>mN.
      bind (accumulate_triangles m mP [0..<triangles_size] mN) (\<lambda>mN.
      bind (normalize_all nz flip [0..<verts_size] mN) (\<lambda>mN.
      motion_steps_loop nz flip verts_size triangles_size m attr_mP rest (fst mN)))))"

definition motion_normals ::
  "(float3 \<Rightarrow> error + float3) \<Rightarrow> bool \<Rightarrow> nat \<Rightarrow> nat \<Rightarrow> float3 Mesh \<Rightarrow> error + float3 Mesh" where
  "motion_normals nz flip verts_size triangles_size m =
     (case AttributeSet_find (attributes m) ATTR_STD_MOTION_VERTEX_POSITION of
        None \<Rightarrow> Inr m
      | Some attr_mP \<Rightarrow>
          if has_motion_blur m \<and>
             AttributeSet_find (attributes m) ATTR_STD_MOTION_VERTEX_NORMAL = None \<and>
             triangles_size \<noteq> 0
          then
            bind (motion_steps_loop nz flip verts_size triangles_size m attr_mP
                    [0..<unat (motion_steps m - 1)]
                    (replicate (size_of (verts m) * unat (motion_steps m - 1)) zero_float3))
              (\<lambda>attr_mN.
            Inr (m\<lparr>attributes :=
                   AttributeSet_add (attributes m) ATTR_STD_MOTION_VERTEX_NORMAL attr_mN\<rparr>))
          else Inr m)"

text \<open>
  The loop over the corners of one subdivision face: \<^verbatim>\<open>j\<close> and the corner are \<^verbatim>\<open>size_t\<close>,
  the \<^verbatim>\<open>int\<close> fields of the face are converted.
\<close>

fun accumulate_corners :: "float3 Mesh \<Rightarrow> SubdFace \<Rightarrow> float3 \<Rightarrow> nat list \<Rightarrow> float3 ptr \<Rightarrow> error + float3 ptr" where
  "accumulate_corners m face fN [] vN = Inr vN"
| "accumulate_corners m face fN (j # rest) vN =
     bind (array_at (subd_face_corners m)
             (size_t_add (size_t_of_int (sint (start_corner face))) j)) (\<lambda>c.
     bind (add_at vN (int (size_t_of_int (sint c))) fN) (\<lambda>vN'.
     accumulate_corners m face fN rest vN'))"

fun accumulate_faces ::
  "(float3 \<Rightarrow> error + float3) \<Rightarrow> float3 Mesh \<Rightarrow> nat list \<Rightarrow> float3 ptr \<Rightarrow> error + float3 ptr" where
  "accumulate_faces snz m [] vN = Inr vN"
| "accumulate_faces snz m (i # rest) vN =
     bind (get_subd_face i m) (\<lambda>face.
     bind (SubdFace_normal snz face m) (\<lambda>fN.
     bind (accumulate_corners m face fN [0..<size_t_of_int (sint (num_corners face))] vN)
       (\<lambda>vN'.
     accumulate_faces snz m rest vN')))"

definition subd_normals ::
  "(float3 \<Rightarrow> error + float3) \<Rightarrow> (float3 \<Rightarrow> error + float3) \<Rightarrow> bool \<Rightarrow> nat \<Rightarrow> float3 Mesh \<Rightarrow>
   error + float3 Mesh" where
  "subd_normals nz snz flip verts_size m =
     (if AttributeSet_find (subd_attributes m) ATTR_STD_VERTEX_NORMAL = None \<and>
         get_num_subd_faces m \<noteq> 0
      then
        bind (fill_n (replicate (size_of (verts m)) zero_float3, 0) [0..<size_of (verts m)]
                zero_float3) (\<lambda>vN.
        bind (accumulate_faces snz m [0..<get_num_subd_faces m] vN) (\<lambda>vN.
        bind (normalize_all nz flip [0..<verts_size] vN) (\<lambda>vN.
        Inr (m\<lparr>subd_attributes :=
               AttributeSet_add (subd_attributes m) ATTR_STD_VERTEX_NORMAL (fst vN)\<rparr>))))
      else Inr m)"

text \<open>
  \<^verbatim>\<open>Mesh::add_vertex_normals\<close>: the static, the motion and the subdivision normals, in
  this order. The functions \<^verbatim>\<open>normalize\<close> and \<^verbatim>\<open>safe_normalize\<close> are parameters.
\<close>

definition add_vertex_normals ::
  "(float3 \<Rightarrow> error + float3) \<Rightarrow> (float3 \<Rightarrow> error + float3) \<Rightarrow> float3 Mesh \<Rightarrow> error + float3 Mesh" where
  "add_vertex_normals nz snz m =
     (let flip = transform_negative_scaled m;
          verts_size = size_of (verts m);
          triangles_size = num_triangles m
      in
      bind (static_normals nz flip verts_size triangles_size m) (\<lambda>m1.
      bind (motion_normals nz flip verts_size triangles_size m1) (\<lambda>m2.
      subd_normals nz snz flip verts_size m2)))"

subsection \<open>Bounds\<close>

text \<open>
  A loop that grows a box by the points read at the given indices; \<open>g\<close> is
  \<^verbatim>\<open>BoundBox::grow\<close> or \<^verbatim>\<open>BoundBox::grow_safe\<close>, and \<open>rd\<close> reads a point: \<^verbatim>\<open>verts[i]\<close> of the
  array, or \<^verbatim>\<open>vert_steps[i]\<close> through the pointer to the attribute's buffer.
\<close>

fun grow_loop ::
  "(BoundBox \<Rightarrow> float3 option \<Rightarrow> BoundBox) \<Rightarrow> (nat \<Rightarrow> error + float3 option) \<Rightarrow> nat list \<Rightarrow>
   BoundBox \<Rightarrow> error + BoundBox" where
  "grow_loop g rd [] bnds = Inr bnds"
| "grow_loop g rd (i # rest) bnds = bind (rd i) (\<lambda>pt. grow_loop g rd rest (g bnds pt))"

text \<open>
  \<^verbatim>\<open>Mesh::compute_bounds\<close>, on a mesh whose points may be non-finite (\<open>None\<close>). The number
  of motion samples is \<^verbatim>\<open>verts.size() * (motion_steps - 1)\<close>, the subtraction in \<^verbatim>\<open>uint\<close>
  and the product in \<^verbatim>\<open>size_t\<close>.
\<close>

definition steps_size_of :: "'v Mesh \<Rightarrow> nat" where
  "steps_size_of m = size_t_mul (size_of (verts m)) (unat (motion_steps m - 1))"

definition compute_bounds :: "float3 option Mesh \<Rightarrow> error + float3 option Mesh" where
  "compute_bounds m =
     (let verts_size = size_of (verts m) in
      bind
        (if verts_size > 0 then
           bind (grow_loop grow (array_at (verts m)) [0..<verts_size] BoundBox_empty) (\<lambda>bnds.
           let attr = AttributeSet_find (attributes m) ATTR_STD_MOTION_VERTEX_POSITION in
           bind (case (if use_motion_blur m then attr else None) of
                   Some vert_steps \<Rightarrow>
                     grow_loop grow (\<lambda>i. read_ptr (vert_steps, 0) (int i))
                       [0..<steps_size_of m] bnds
                 | None \<Rightarrow> Inr bnds) (\<lambda>bnds.
           if \<not> valid bnds then
             bind (grow_loop grow_safe (array_at (verts m)) [0..<verts_size] BoundBox_empty)
               (\<lambda>bnds.
             case (if use_motion_blur m then attr else None) of
               Some vert_steps \<Rightarrow>
                 grow_loop grow_safe (\<lambda>i. read_ptr (vert_steps, 0) (int i))
                   [0..<steps_size_of m] bnds
             | None \<Rightarrow> Inr bnds)
           else Inr bnds))
         else Inr BoundBox_empty)
        (\<lambda>bnds.
      Inr (m\<lparr>bounds := (if \<not> valid bnds then grow bnds (Some zero_float3) else bnds)\<rparr>)))"

text \<open>
  The points the bounds are about, as the spec's data model gives them: the vertices and,
  when motion blur is on and the motion-position attribute exists, the motion samples,
  which are the first \<open>num_verts * (num_steps - 1)\<close> entries of the attribute's buffer
  (one block of \<open>num_verts\<close> positions for each step but the center one). The count is
  written here in natural numbers, apart from the arithmetic of the loop bound.
\<close>

definition num_motion_samples_spec :: "'v Mesh \<Rightarrow> nat" where
  "num_motion_samples_spec m = length (items (verts m)) * (unat (motion_steps m) - 1)"

definition bounded_points :: "float3 option Mesh \<Rightarrow> float3 option list" where
  "bounded_points m =
     items (verts m) @
     (case (if use_motion_blur m
            then AttributeSet_find (attributes m) ATTR_STD_MOTION_VERTEX_POSITION else None) of
        Some vert_steps \<Rightarrow> take (num_motion_samples_spec m) vert_steps
      | None \<Rightarrow> [])"

definition finite_points :: "float3 option list \<Rightarrow> float3 list" where
  "finite_points pts = map the (filter isfinite_safe pts)"

text \<open>
  The motion buffer, when it is looked at, belongs to a mesh with at least one motion
  step and holds the \<open>num_verts * (num_steps - 1)\<close> samples of the data model, a number
  that fits \<^verbatim>\<open>size_t\<close>.
\<close>

definition motion_buffer_ok :: "float3 option Mesh \<Rightarrow> bool" where
  "motion_buffer_ok m =
     (case (if use_motion_blur m
            then AttributeSet_find (attributes m) ATTR_STD_MOTION_VERTEX_POSITION else None) of
        Some vert_steps \<Rightarrow>
          1 \<le> unat (motion_steps m) \<and>
          num_motion_samples_spec m < 2 ^ 64 \<and>
          num_motion_samples_spec m \<le> length vert_steps
      | None \<Rightarrow> True)"

text \<open>
  A box bounds a list of points exactly when it contains each of them and each of its six
  faces touches one of them.
\<close>

definition px :: "float3 \<Rightarrow> real" where "px p = fst p"
definition py :: "float3 \<Rightarrow> real" where "py p = fst (snd p)"
definition pz :: "float3 \<Rightarrow> real" where "pz p = snd (snd p)"

definition axis_bounds :: "real \<Rightarrow> real \<Rightarrow> real list \<Rightarrow> bool" where
  "axis_bounds l h xs = (list_all (\<lambda>x. l \<le> x \<and> x \<le> h) xs \<and> l \<in> set xs \<and> h \<in> set xs)"

definition bounds_exactly :: "BoundBox \<Rightarrow> float3 list \<Rightarrow> bool" where
  "bounds_exactly b ps =
     (case b of
        Box lo hi \<Rightarrow>
          axis_bounds (px lo) (px hi) (map px ps) \<and>
          axis_bounds (py lo) (py hi) (map py ps) \<and>
          axis_bounds (pz lo) (pz hi) (map pz ps)
      | _ \<Rightarrow> False)"

section \<open>Motion blur test\<close>

text \<open>
  C5. \<^verbatim>\<open>has_motion_blur\<close> is true exactly when motion blur is enabled and a
  motion-position attribute exists on the active domain: the triangle domain normally,
  the subdivision domain when subdivision is enabled and that domain has the attribute.
\<close>

theorem has_motion_blur_iff_spec:
  "has_motion_blur m = has_motion_blur_spec m"
  by (auto simp: has_motion_blur_def has_motion_blur_spec_def active_domain_spec_def
      domain_attributes_def)

theorem has_motion_blur_iff_spec_witness:
  "has_motion_blur ((Mesh_new :: float3 Mesh)\<lparr>use_motion_blur := True,
      subdivision_type := SUBDIVISION_CATMULL_CLARK,
      subd_attributes := [ATTR_STD_MOTION_VERTEX_POSITION \<mapsto> []]\<rparr>) \<and>
   has_motion_blur_spec ((Mesh_new :: float3 Mesh)\<lparr>use_motion_blur := True,
      subdivision_type := SUBDIVISION_CATMULL_CLARK,
      subd_attributes := [ATTR_STD_MOTION_VERTEX_POSITION \<mapsto> []]\<rparr>)"
proof -
  let ?m = "(Mesh_new :: float3 Mesh)\<lparr>use_motion_blur := True,
      subdivision_type := SUBDIVISION_CATMULL_CLARK,
      subd_attributes := [ATTR_STD_MOTION_VERTEX_POSITION \<mapsto> []]\<rparr>"
  have "has_motion_blur ?m"
    by (simp add: has_motion_blur_def AttributeSet_find_def)
  with has_motion_blur_iff_spec[of ?m] show ?thesis by simp
qed

section \<open>Reserving keeps the array sizes\<close>

lemma size_of_reserve: "size_of (reserve n a) = size_of a"
  by (simp add: size_of_def reserve_def)

text \<open>
  C3. \<^verbatim>\<open>reserve_mesh\<close> and \<^verbatim>\<open>reserve_subd_creases\<close> change no logical size of the mesh.
  \<^verbatim>\<open>reserve_subd_faces\<close> changes the size of no array, but it stores the number of faces
  it was given in \<^verbatim>\<open>num_subd_faces\<close>.
\<close>

theorem reserve_keeps_array_sizes:
  "logical_sizes (reserve_mesh numverts numtris m) = logical_sizes m \<and>
   logical_sizes (reserve_subd_creases num_creases m) = logical_sizes m \<and>
   array_sizes (reserve_subd_faces numfaces numcorners m) = array_sizes m \<and>
   num_subd_faces (reserve_subd_faces numfaces numcorners m) = numfaces"
  by (simp add: logical_sizes_def array_sizes_def reserve_mesh_def reserve_subd_creases_def
      reserve_subd_faces_def size_of_reserve)

text \<open>
  The stored face count of a new mesh is 0; after reserving room for 5 faces it is 5,
  with no face appended.
\<close>

theorem reserve_subd_faces_changes_face_count:
  "logical_sizes (reserve_subd_faces 5 20 (Mesh_new :: float3 Mesh)) \<noteq>
   logical_sizes (Mesh_new :: float3 Mesh)"
  by (simp add: logical_sizes_def reserve_subd_faces_def Mesh_new_def)

section \<open>Ptex offsets of appended subdivision faces\<close>

lemma bind_Inr_iff: "bind r f = Inr y \<longleftrightarrow> (\<exists>x. r = Inr x \<and> f x = Inr y)"
  by (cases r) (simp_all add: bind_def)

lemma push_back_reserved_Inr:
  "push_back_reserved t a = Inr a' \<longleftrightarrow> size_of a < capacity a \<and> a' = a\<lparr>items := items a @ [t]\<rparr>"
  by (auto simp: push_back_reserved_def)

lemma ptex_offsets_spec_snoc:
  "ptex_offsets_spec (ncs @ [k]) = ptex_offsets_spec ncs @ [sum_list (map ptex_faces_of ncs)]"
  by (simp add: ptex_offsets_spec_def)

lemma sum_list_last:
  "ncs \<noteq> [] \<Longrightarrow> sum_list (map f ncs) = sum_list (map f (take (length ncs - 1) ncs)) + f (ncs ! (length ncs - 1))"
  for f :: "int32 \<Rightarrow> int32"
proof (induction ncs rule: rev_induct)
  case Nil then show ?case by simp
next
  case (snoc x xs) then show ?case by (simp add: nth_append)
qed

lemma array_at_Inr: "array_at a i = Inr x \<longleftrightarrow> i < size_of a \<and> x = items a ! i"
  by (auto simp: array_at_def)

lemma get_subd_face_Inr:
  "get_subd_face i m = Inr s \<Longrightarrow>
     i < size_of (subd_num_corners m) \<and> i < size_of (subd_ptex_offset m) \<and>
     num_corners s = items (subd_num_corners m) ! i \<and>
     ptex_offset s = items (subd_ptex_offset m) ! i"
  by (auto simp: get_subd_face_def bind_Inr_iff array_at_Inr)

lemma last_offset:
  assumes "faces_consistent m"
    and "items (subd_ptex_offset m) = ptex_offsets_spec (items (subd_num_corners m))"
    and "(if size_of (subd_shader m) \<noteq> 0
            then bind (get_subd_face (size_of (subd_shader m) - 1) m)
                   (\<lambda>s. Inr (ptex_offset s + num_ptex_faces s))
            else Inr 0) = Inr po"
  shows "po = sum_list (map ptex_faces_of (items (subd_num_corners m)))"
proof (cases "size_of (subd_shader m) = 0")
  case True
  with assms show ?thesis by (simp add: faces_consistent_def size_of_def)
next
  case False
  let ?ncs = "items (subd_num_corners m)"
  let ?n = "length ?ncs"
  from assms(1) have n: "size_of (subd_shader m) = ?n"
    by (simp add: faces_consistent_def size_of_def)
  with False have ne: "?ncs \<noteq> []" by auto
  from assms(3) False obtain s where s: "get_subd_face (?n - 1) m = Inr s"
    and po: "po = ptex_offset s + num_ptex_faces s"
    by (auto simp: bind_Inr_iff n)
  from get_subd_face_Inr[OF s] have nc: "num_corners s = ?ncs ! (?n - 1)"
    and off: "ptex_offset s = items (subd_ptex_offset m) ! (?n - 1)" by auto
  from ne have lt: "?n - 1 < ?n" by (cases ?ncs) auto
  have "ptex_offset s = sum_list (map ptex_faces_of (take (?n - 1) ?ncs))"
    using lt by (simp add: off assms(2) ptex_offsets_spec_def)
  moreover have "num_ptex_faces s = ptex_faces_of (?ncs ! (?n - 1))"
    by (simp add: num_ptex_faces_def ptex_faces_of_def nc)
  ultimately show ?thesis
    using sum_list_last[OF ne, of ptex_faces_of] by (simp add: po)
qed

lemma add_subd_face_step:
  assumes "faces_consistent m"
    and "items (subd_ptex_offset m) = ptex_offsets_spec (items (subd_num_corners m))"
    and "add_subd_face cs k sh sm m = Inr m'"
  shows "faces_consistent m' \<and>
         items (subd_num_corners m') = items (subd_num_corners m) @ [k] \<and>
         items (subd_ptex_offset m') = ptex_offsets_spec (items (subd_num_corners m'))"
proof -
  from assms(3) obtain fc po a1 a2 a3 a4 a5 where
    po: "(if size_of (subd_shader m) \<noteq> 0
            then bind (get_subd_face (size_of (subd_shader m) - 1) m)
                   (\<lambda>s. Inr (ptex_offset s + num_ptex_faces s))
            else Inr 0) = Inr po"
    and a1: "push_back_reserved (of_nat (size_of (subd_face_corners m))) (subd_start_corner m) = Inr a1"
    and a2: "push_back_reserved k (subd_num_corners m) = Inr a2"
    and a3: "push_back_reserved sh (subd_shader m) = Inr a3"
    and a4: "push_back_reserved sm (subd_smooth m) = Inr a4"
    and a5: "push_back_reserved po (subd_ptex_offset m) = Inr a5"
    and m': "m' = m\<lparr>subd_face_corners := fc, subd_start_corner := a1, subd_num_corners := a2,
             subd_shader := a3, subd_smooth := a4, subd_ptex_offset := a5\<rparr>"
    unfolding add_subd_face_def Let_def bind_Inr_iff by blast
  from last_offset[OF assms(1,2) po]
  have poeq: "po = sum_list (map ptex_faces_of (items (subd_num_corners m)))" .
  from a1 a2 a3 a4 a5 assms(1) have "faces_consistent m'"
    by (auto simp: m' faces_consistent_def push_back_reserved_Inr size_of_def)
  moreover from a2 have "items (subd_num_corners m') = items (subd_num_corners m) @ [k]"
    by (auto simp: m' push_back_reserved_Inr)
  moreover from a2 a5 have "items (subd_ptex_offset m') = ptex_offsets_spec (items (subd_num_corners m'))"
    by (auto simp: m' push_back_reserved_Inr ptex_offsets_spec_snoc assms(2) poeq)
  ultimately show ?thesis by blast
qed

lemma add_subd_faces_offsets:
  assumes "faces_consistent m"
    and "items (subd_ptex_offset m) = ptex_offsets_spec (items (subd_num_corners m))"
    and "add_subd_faces fs m = Inr m'"
  shows "faces_consistent m' \<and>
         items (subd_num_corners m') = items (subd_num_corners m) @ map (\<lambda>f. fst (snd f)) fs \<and>
         items (subd_ptex_offset m') = ptex_offsets_spec (items (subd_num_corners m'))"
  using assms
proof (induction fs arbitrary: m)
  case Nil
  then show ?case by simp
next
  case (Cons f fs)
  obtain cs k sh sm where f: "f = (cs, k, sh, sm)" by (cases f) auto
  from Cons.prems(3) obtain m1 where m1: "add_subd_face cs k sh sm m = Inr m1"
    and rest: "add_subd_faces fs m1 = Inr m'"
    by (auto simp: f bind_Inr_iff)
  from add_subd_face_step[OF Cons.prems(1,2) m1] Cons.IH[OF _ _ rest]
  show ?case by (simp add: f)
qed

lemma push_corners_ok:
  "list_all (\<lambda>i. i < length corners) ixs \<Longrightarrow> size_of a + length ixs \<le> capacity a \<Longrightarrow>
     \<exists>a'. push_corners corners ixs a = Inr a' \<and> capacity a' = capacity a \<and>
          size_of a' = size_of a + length ixs"
proof (induction ixs arbitrary: a)
  case Nil
  then show ?case by simp
next
  case (Cons i ixs)
  let ?a1 = "a\<lparr>items := items a @ [corners ! i]\<rparr>"
  from Cons.prems have r: "read_at corners (int i) = Inr (corners ! i)"
    by (simp add: read_at_def)
  from Cons.prems have p: "push_back_reserved (corners ! i) a = Inr ?a1"
    by (simp add: push_back_reserved_def)
  from Cons.prems have "size_of ?a1 + length ixs \<le> capacity ?a1"
    by (simp add: size_of_def)
  with Cons.IH[of ?a1] Cons.prems(1) obtain a' where
    "push_corners corners ixs ?a1 = Inr a'" "capacity a' = capacity ?a1"
    "size_of a' = size_of ?a1 + length ixs" by auto
  then show ?case by (simp add: r p bind_def size_of_def)
qed

lemma add_subd_face_ok:
  assumes "faces_consistent m" and "has_room ((cs, k, sh, sm) # fs) m"
  shows "\<exists>m'. add_subd_face cs k sh sm m = Inr m' \<and> has_room fs m' \<and> faces_consistent m'"
proof -
  let ?n = "nat (sint k)"
  from assms(2) have room: "size_of (subd_face_corners m) + length [0..<?n] \<le> capacity (subd_face_corners m)"
    and inr: "list_all (\<lambda>i. i < length cs) [0..<?n]"
    by (auto simp: has_room_def ncorners_def list_all_iff)
  from push_corners_ok[OF inr room] obtain fc where
    fc: "push_corners cs [0..<?n] (subd_face_corners m) = Inr fc"
    and fccap: "capacity fc = capacity (subd_face_corners m)"
    and fcsz: "size_of fc = size_of (subd_face_corners m) + ?n" by auto
  have "\<exists>po. (if size_of (subd_shader m) \<noteq> 0
            then bind (get_subd_face (size_of (subd_shader m) - 1) m)
                   (\<lambda>s. Inr (ptex_offset s + num_ptex_faces s))
            else Inr 0) = Inr po"
    using assms(1) by (auto simp: faces_consistent_def get_subd_face_def array_at_def bind_def)
  then obtain po where po: "(if size_of (subd_shader m) \<noteq> 0
            then bind (get_subd_face (size_of (subd_shader m) - 1) m)
                   (\<lambda>s. Inr (ptex_offset s + num_ptex_faces s))
            else Inr 0) = Inr po" ..
  from assms(2) have caps: "size_of (subd_start_corner m) < capacity (subd_start_corner m)"
    "size_of (subd_num_corners m) < capacity (subd_num_corners m)"
    "size_of (subd_shader m) < capacity (subd_shader m)"
    "size_of (subd_smooth m) < capacity (subd_smooth m)"
    "size_of (subd_ptex_offset m) < capacity (subd_ptex_offset m)"
    by (auto simp: has_room_def)
  let ?m' = "m\<lparr>subd_face_corners := fc,
      subd_start_corner := (subd_start_corner m)\<lparr>items := items (subd_start_corner m) @ [of_nat (size_of (subd_face_corners m))]\<rparr>,
      subd_num_corners := (subd_num_corners m)\<lparr>items := items (subd_num_corners m) @ [k]\<rparr>,
      subd_shader := (subd_shader m)\<lparr>items := items (subd_shader m) @ [sh]\<rparr>,
      subd_smooth := (subd_smooth m)\<lparr>items := items (subd_smooth m) @ [sm]\<rparr>,
      subd_ptex_offset := (subd_ptex_offset m)\<lparr>items := items (subd_ptex_offset m) @ [po]\<rparr>\<rparr>"
  have 1: "add_subd_face cs k sh sm m = Inr ?m'"
    unfolding add_subd_face_def Let_def fc po using caps
    by (simp add: push_back_reserved_def bind_def)
  have 2: "has_room fs ?m'"
    using assms(2) by (simp add: has_room_def size_of_def fccap fcsz[unfolded size_of_def] ncorners_def)
  have 3: "faces_consistent ?m'"
    using assms(1) by (simp add: faces_consistent_def size_of_def)
  from 1 2 3 show ?thesis by blast
qed

lemma add_subd_faces_ok:
  "faces_consistent m \<Longrightarrow> has_room fs m \<Longrightarrow> \<exists>m'. add_subd_faces fs m = Inr m'"
proof (induction fs arbitrary: m)
  case Nil
  then show ?case by simp
next
  case (Cons f fs)
  obtain cs k sh sm where f: "f = (cs, k, sh, sm)" by (cases f) auto
  from add_subd_face_ok[OF Cons.prems(1) Cons.prems(2)[unfolded f]]
  obtain m1 where "add_subd_face cs k sh sm m = Inr m1" "has_room fs m1" "faces_consistent m1"
    by blast
  with Cons.IH[of m1] show ?case by (auto simp: f bind_def)
qed

lemma sum_list_word_of_int:
  "sum_list ws = (word_of_int (sum_list (map sint ws)) :: int32)"
  by (induction ws) simp_all

lemma sint_sum_list:
  "- (2 ^ 31) \<le> sum_list (map sint ws) \<Longrightarrow> sum_list (map sint ws) < 2 ^ 31 \<Longrightarrow>
     sint (sum_list ws :: int32) = sum_list (map sint ws)"
  by (subst sum_list_word_of_int) (simp add: signed_of_int signed_take_bit_int_eq_self)

text \<open>
  C2. Starting from a mesh without subdivision faces, after any sequence of
  \<^verbatim>\<open>add_subd_face\<close> calls the stored ptex offset of face \<open>i\<close> is the sum of the ptex-face
  counts (1 for a face of 4 corners, the corner count otherwise) of the faces appended
  before it, in the 32-bit arithmetic of \<^verbatim>\<open>int\<close>; and the calls all succeed when enough
  was reserved. A face of 4 corners followed by one of 5 gives the offsets 0 and 1.
\<close>

theorem add_subd_face_ptex_offsets:
  assumes "subd_faces_empty m"
  shows "(\<forall>m'. add_subd_faces fs m = Inr m' \<longrightarrow>
            items (subd_num_corners m') = map ncorners fs \<and>
            items (subd_ptex_offset m') = ptex_offsets_spec (map ncorners fs)) \<and>
         (\<forall>m' i. add_subd_faces fs m = Inr m' \<and> i < length fs \<and>
            - (2 ^ 31) \<le> sum_list (map (\<lambda>f. sint (ptex_faces_of (ncorners f))) (take i fs)) \<and>
            sum_list (map (\<lambda>f. sint (ptex_faces_of (ncorners f))) (take i fs)) < 2 ^ 31 \<longrightarrow>
            sint (items (subd_ptex_offset m') ! i) =
              sum_list (map (\<lambda>f. sint (ptex_faces_of (ncorners f))) (take i fs))) \<and>
         (has_room fs m \<longrightarrow> (\<exists>m'. add_subd_faces fs m = Inr m'))"
proof -
  from assms have c: "faces_consistent m"
    and e: "items (subd_num_corners m) = []" "items (subd_ptex_offset m) = []"
    by (simp_all add: subd_faces_empty_def faces_consistent_def size_of_def)
  have o: "items (subd_ptex_offset m) = ptex_offsets_spec (items (subd_num_corners m))"
    by (simp add: e ptex_offsets_spec_def)
  have 1: "items (subd_num_corners m') = map ncorners fs \<and>
        items (subd_ptex_offset m') = ptex_offsets_spec (map ncorners fs)"
    if "add_subd_faces fs m = Inr m'" for m'
    using add_subd_faces_offsets[OF c o that] by (simp add: e ncorners_def[abs_def])
  have 2: "sint (items (subd_ptex_offset m') ! i) =
             sum_list (map (\<lambda>f. sint (ptex_faces_of (ncorners f))) (take i fs))"
    if r: "add_subd_faces fs m = Inr m'" and i: "i < length fs"
      and lo: "- (2 ^ 31) \<le> sum_list (map (\<lambda>f. sint (ptex_faces_of (ncorners f))) (take i fs))"
      and hi: "sum_list (map (\<lambda>f. sint (ptex_faces_of (ncorners f))) (take i fs)) < 2 ^ 31"
    for m' i
  proof -
    let ?ws = "map ptex_faces_of (take i (map ncorners fs))"
    have ws: "map sint ?ws = map (\<lambda>f. sint (ptex_faces_of (ncorners f))) (take i fs)"
      by (simp add: take_map comp_def)
    from 1[OF r] i have "items (subd_ptex_offset m') ! i = sum_list ?ws"
      by (simp add: ptex_offsets_spec_def)
    moreover have "sint (sum_list ?ws) = sum_list (map sint ?ws)"
      by (rule sint_sum_list) (use lo hi in \<open>simp_all only: ws\<close>)
    ultimately show ?thesis by (simp only: ws)
  qed
  have 3: "\<exists>m'. add_subd_faces fs m = Inr m'" if "has_room fs m"
    using add_subd_faces_ok[OF c that] .
  from 1 2 3 show ?thesis by blast
qed

theorem add_subd_face_ptex_offsets_witness:
  "subd_faces_empty (reserve_subd_faces 2 9 (Mesh_new :: float3 Mesh)) \<and>
   has_room [([0, 1, 2, 3], 4, 0, True), ([3, 2, 4, 5, 6], 5, 0, False)]
     (reserve_subd_faces 2 9 (Mesh_new :: float3 Mesh)) \<and>
   (\<exists>m'. add_subd_faces [([0, 1, 2, 3], 4, 0, True), ([3, 2, 4, 5, 6], 5, 0, False)]
           (reserve_subd_faces 2 9 (Mesh_new :: float3 Mesh)) = Inr m' \<and>
         items (subd_ptex_offset m') = [0, 1])"
proof -
  let ?m = "reserve_subd_faces 2 9 (Mesh_new :: float3 Mesh)"
  let ?fs = "[([0, 1, 2, 3], 4, 0, True), ([3, 2, 4, 5, 6], 5, 0, False)] :: face_args list"
  have e: "subd_faces_empty ?m"
    by (simp add: subd_faces_empty_def reserve_subd_faces_def Mesh_new_def size_of_def
        reserve_def array_empty_def)
  have r: "has_room ?fs ?m"
    by (simp add: has_room_def reserve_subd_faces_def Mesh_new_def size_of_def
        reserve_def array_empty_def ncorners_def)
  have s: "ptex_offsets_spec (map ncorners ?fs) = [0, 1]"
    by (simp add: ptex_offsets_spec_def ncorners_def ptex_faces_of_def upt_rec)
  from add_subd_face_ptex_offsets[OF e, of ?fs] r s
  have "\<exists>m'. add_subd_faces ?fs ?m = Inr m' \<and> items (subd_ptex_offset m') = [0, 1]"
    by auto
  with e r show ?thesis by blast
qed

section \<open>Triangle arrays grow in step\<close>

lemma add_triangle_Inr:
  "add_triangle v0 v1 v2 sh sm m = Inr m' \<longleftrightarrow>
     size_of (triangles m) + 3 \<le> capacity (triangles m) \<and>
     size_of (shader m) < capacity (shader m) \<and>
     size_of (smooth m) < capacity (smooth m) \<and>
     m' = m\<lparr>triangles := (triangles m)\<lparr>items := items (triangles m) @ [v0, v1, v2]\<rparr>,
            shader := (shader m)\<lparr>items := items (shader m) @ [sh]\<rparr>,
            smooth := (smooth m)\<lparr>items := items (smooth m) @ [sm]\<rparr>\<rparr>"
  by (auto simp: add_triangle_def bind_Inr_iff push_back_reserved_Inr size_of_def)

lemma add_triangle_Inl:
  "add_triangle v0 v1 v2 sh sm m = Inl e \<Longrightarrow> e = CapacityExceeded"
  by (auto simp: add_triangle_def bind_def push_back_reserved_def split: sum.splits if_splits)

lemma add_subd_face_frame:
  "add_subd_face cs k sh sm m = Inr m' \<Longrightarrow>
     triangles m' = triangles m \<and> shader m' = shader m \<and> smooth m' = smooth m"
  unfolding add_subd_face_def Let_def bind_Inr_iff by auto

lemma run_call_triangle_invariant:
  "triangle_invariant m \<Longrightarrow> run_call c m = Inr m' \<Longrightarrow> triangle_invariant m'"
proof (cases c)
  case (Add_triangle v0 v1 v2 sh sm)
  assume "triangle_invariant m" "run_call c m = Inr m'"
  then show ?thesis
    by (auto simp: Add_triangle add_triangle_Inr triangle_invariant_def size_of_def)
next
  case (Add_subd_face cs k sh sm)
  assume "triangle_invariant m" "run_call c m = Inr m'"
  then show ?thesis
    using add_subd_face_frame[of cs k sh sm m m']
    by (simp add: Add_subd_face triangle_invariant_def)
qed (auto simp: triangle_invariant_def add_vertex_def add_vertex_slow_def bind_Inr_iff
    add_edge_crease_def add_vertex_crease_def reserve_mesh_def reserve_subd_faces_def
    reserve_subd_creases_def size_of_reserve)

lemma run_calls_triangle_invariant:
  "triangle_invariant m \<Longrightarrow> run_calls cs m = Inr m' \<Longrightarrow> triangle_invariant m'"
proof (induction cs arbitrary: m)
  case Nil
  then show ?case by simp
next
  case (Cons c cs)
  from Cons.prems(2) obtain m1 where "run_call c m = Inr m1" "run_calls cs m1 = Inr m'"
    by (auto simp: bind_Inr_iff)
  with Cons.IH[of m1] run_call_triangle_invariant[OF Cons.prems(1)] show ?case by blast
qed

text \<open>
  C7. From a mesh whose triangle arrays are in step (three indices per shader entry and
  per smooth entry), every sequence of appending and reserving calls that runs through
  leaves them in step. One \<^verbatim>\<open>add_triangle\<close> call appends the three indices, the shader
  and the smooth entry together, or fails as a whole because an array has no reserved
  room; it succeeds when the three arrays have room.
\<close>

theorem add_triangle_lockstep:
  assumes "triangle_invariant m"
  shows "(\<forall>m'. run_calls cs m = Inr m' \<longrightarrow> triangle_invariant m') \<and>
         (case add_triangle v0 v1 v2 sh sm m of
            Inr m' \<Rightarrow> items (triangles m') = items (triangles m) @ [v0, v1, v2] \<and>
                      items (shader m') = items (shader m) @ [sh] \<and>
                      items (smooth m') = items (smooth m) @ [sm]
          | Inl e \<Rightarrow> e = CapacityExceeded) \<and>
         (size_of (triangles m) + 3 \<le> capacity (triangles m) \<and>
          size_of (shader m) < capacity (shader m) \<and>
          size_of (smooth m) < capacity (smooth m) \<longrightarrow>
            (\<exists>m'. add_triangle v0 v1 v2 sh sm m = Inr m'))"
proof -
  have 1: "\<forall>m'. run_calls cs m = Inr m' \<longrightarrow> triangle_invariant m'"
    using run_calls_triangle_invariant[OF assms] by blast
  have 2: "(case add_triangle v0 v1 v2 sh sm m of
            Inr m' \<Rightarrow> items (triangles m') = items (triangles m) @ [v0, v1, v2] \<and>
                      items (shader m') = items (shader m) @ [sh] \<and>
                      items (smooth m') = items (smooth m) @ [sm]
          | Inl e \<Rightarrow> e = CapacityExceeded)"
  proof (cases "add_triangle v0 v1 v2 sh sm m")
    case (Inl e)
    then show ?thesis using add_triangle_Inl[OF Inl] by simp
  next
    case (Inr m')
    from Inr[unfolded add_triangle_Inr]
    have "items (triangles m') = items (triangles m) @ [v0, v1, v2] \<and>
          items (shader m') = items (shader m) @ [sh] \<and>
          items (smooth m') = items (smooth m) @ [sm]" by simp
    then show ?thesis by (simp add: Inr)
  qed
  have 3: "size_of (triangles m) + 3 \<le> capacity (triangles m) \<and>
          size_of (shader m) < capacity (shader m) \<and>
          size_of (smooth m) < capacity (smooth m) \<longrightarrow>
            (\<exists>m'. add_triangle v0 v1 v2 sh sm m = Inr m')"
    by (simp add: add_triangle_Inr)
  from 1 2 3 show ?thesis by blast
qed

theorem add_triangle_lockstep_witness:
  "triangle_invariant (reserve_mesh 4 2 (Mesh_new :: float3 Mesh)) \<and>
   (\<exists>m'. run_calls [Add_triangle 0 1 2 0 True, Add_vertex (0, 0, 0), Add_triangle 2 1 3 7 False]
            (reserve_mesh 4 2 (Mesh_new :: float3 Mesh)) = Inr m' \<and>
          triangle_invariant m' \<and> items (triangles m') = [0, 1, 2, 2, 1, 3] \<and>
          items (shader m') = [0, 7] \<and> items (smooth m') = [True, False])"
proof -
  let ?m = "reserve_mesh 4 2 (Mesh_new :: float3 Mesh)"
  let ?cs = "[Add_triangle 0 1 2 0 True, Add_vertex (0, 0, 0), Add_triangle 2 1 3 7 False] :: float3 call list"
  have i: "triangle_invariant ?m"
    by (simp add: triangle_invariant_def reserve_mesh_def Mesh_new_def size_of_def reserve_def
        array_empty_def)
  have "\<exists>m'. run_calls ?cs ?m = Inr m' \<and> items (triangles m') = [0, 1, 2, 2, 1, 3] \<and>
          items (shader m') = [0, 7] \<and> items (smooth m') = [True, False]"
    by (simp add: add_triangle_def add_vertex_def bind_def push_back_reserved_def
        reserve_mesh_def Mesh_new_def size_of_def reserve_def array_empty_def
        AttributeSet_reserve_def)
  with add_triangle_lockstep[OF i, of ?cs] i show ?thesis by blast
qed

section \<open>Motion-interpolated triangle vertices\<close>

lemma size_t_sub_small:
  assumes "b \<le> a" and "a - b < 2 ^ 64"
  shows "size_t_sub a b = a - b"
proof -
  from assms(1) have "a + 2 ^ 64 - b = (a - b) + 2 ^ 64" by (rule Nat.add_diff_assoc2[symmetric])
  then have "size_t_sub a b = ((a - b) + 2 ^ 64) mod 2 ^ 64" by (simp only: size_t_sub_def)
  also have "\<dots> = (a - b) mod 2 ^ 64" by (simp only: mod_add_self2)
  also have "\<dots> = a - b" using assms(2) by (simp only: mod_less)
  finally show ?thesis .
qed

lemma size_t_of_int_small: "0 \<le> i \<Longrightarrow> i < 2 ^ 64 \<Longrightarrow> size_t_of_int i = nat i"
  by (simp add: size_t_of_int_def)

lemma read_ptr_0: "i < length xs \<Longrightarrow> read_ptr (xs, 0) (int i) = Inr (xs ! i)"
  by (simp add: read_ptr_def read_at_def)

lemma blend_spec_0: "blend_spec 0 a b = a"
  by (cases a; cases b) (auto simp: blend_spec_def add3_def scale3_def split: prod.splits)

lemma blend_spec_1: "blend_spec 1 a b = b"
  by (cases a; cases b) (auto simp: blend_spec_def add3_def scale3_def split: prod.splits)

lemma verts_for_step_sample:
  assumes ns: "2 \<le> num_steps"
    and tri: "tri_in_range tri num_verts"
    and lv: "num_verts \<le> length verts_p"
    and ls: "num_verts * (num_steps - 1) \<le> length vert_steps"
    and fit: "num_verts * (num_steps - 1) < 2 ^ 64"
    and s: "s < num_steps"
  shows "verts_for_step tri (verts_p, 0) (vert_steps, 0) num_verts num_steps s =
         Inr (sample_spec tri verts_p vert_steps num_verts num_steps s)"
proof -
  obtain v0 v1 v2 where t: "tri = (v0, v1, v2)" by (cases tri) auto
  from tri have r: "0 \<le> sint v0" "nat (sint v0) < num_verts" "0 \<le> sint v1"
    "nat (sint v1) < num_verts" "0 \<le> sint v2" "nat (sint v2) < num_verts"
    by (simp_all add: t tri_in_range_def)
  then have nv: "0 < num_verts" by linarith
  have "num_steps - 1 \<le> num_verts * (num_steps - 1)" using nv by simp
  with fit have nsfit: "num_steps - 1 < 2 ^ 64" by linarith
  have c: "size_t_sub num_steps 1 = num_steps - 1"
    using ns nsfit by (simp add: size_t_sub_small)
  show ?thesis
  proof (cases "s = (num_steps - 1) div 2")
    case True
    have "read_ptr (verts_p, 0) (sint v0) = Inr (verts_p ! nat (sint v0))"
      "read_ptr (verts_p, 0) (sint v1) = Inr (verts_p ! nat (sint v1))"
      "read_ptr (verts_p, 0) (sint v2) = Inr (verts_p ! nat (sint v2))"
      using r lv by (simp_all add: read_ptr_def read_at_def)
    then show ?thesis
      unfolding verts_for_step_def sample_spec_def t c Let_def
      by (simp add: True bind_def)
  next
    case False
    define s' where "s' = (if s < (num_steps - 1) div 2 then s else s - 1)"
    have s'le: "s' + 1 \<le> num_steps - 1" using s False ns by (auto simp: s'_def)
    have "s - 1 < 2 ^ 64" using s nsfit by linarith
    then have stepeq: "(if s > (num_steps - 1) div 2 then size_t_sub s 1 else s) = s'"
      using False by (auto simp: s'_def size_t_sub_small)
    have "(s' + 1) * num_verts \<le> (num_steps - 1) * num_verts"
      using s'le by (rule mult_le_mono1)
    then have bound: "s' * num_verts + num_verts \<le> num_verts * (num_steps - 1)"
      by (simp add: algebra_simps)
    then have off: "size_t_mul s' num_verts = s' * num_verts"
      using fit by (simp add: size_t_mul_def)
    have idx: "size_t_add (s' * num_verts) (size_t_of_int (sint v)) = s' * num_verts + nat (sint v)"
      and inb: "s' * num_verts + nat (sint v) < length vert_steps"
      if "0 \<le> sint v" "nat (sint v) < num_verts" for v :: int32
    proof -
      from that bound fit have lt: "s' * num_verts + nat (sint v) < 2 ^ 64" by linarith
      have "sint v < 2 ^ 64"
        using sint_lt[of v] by simp
      with that have "size_t_of_int (sint v) = nat (sint v)"
        by (simp add: size_t_of_int_small)
      then show "size_t_add (s' * num_verts) (size_t_of_int (sint v)) = s' * num_verts + nat (sint v)"
        using lt by (simp add: size_t_add_def)
      from that bound ls show "s' * num_verts + nat (sint v) < length vert_steps" by linarith
    qed
    have rd: "read_ptr (vert_steps, 0) (int (size_t_add (s' * num_verts) (size_t_of_int (sint v)))) =
              Inr (vert_steps ! (s' * num_verts + nat (sint v)))"
      if "0 \<le> sint v" "nat (sint v) < num_verts" for v :: int32
      by (simp only: idx[OF that] read_ptr_0[OF inb[OF that]])
    show ?thesis
      unfolding verts_for_step_def sample_spec_def t c Let_def prod.case s'_def[symmetric]
        stepeq off
      using False by (simp add: rd[OF r(1,2)] rd[OF r(3,4)] rd[OF r(5,6)] bind_def)
  qed
qed

text \<open>
  C1. For a mesh with \<open>num_steps \<ge> 2\<close> temporal samples and a time in \<open>[0, 1]\<close>,
  \<^verbatim>\<open>motion_verts\<close> returns the linear blend \<open>(1 - t) * at step + t * at (step + 1)\<close> with
  \<open>step = min \<lfloor>time * (num_steps - 1)\<rfloor> (num_steps - 2)\<close> and
  \<open>t = time * (num_steps - 1) - step\<close>, where the sample at a step is found by the
  offset rule that omits the center sample. At time 0 the result is sample 0, at time 1
  it is sample \<open>num_steps - 1\<close>. The triangle's indices are within the \<open>num_verts\<close>
  vertices, and the motion buffer holds \<open>num_verts * (num_steps - 1)\<close> points.
\<close>

theorem motion_verts_interpolates:
  assumes ns: "2 \<le> num_steps"
    and t0: "0 \<le> time" and t1: "time \<le> 1"
    and tri: "tri_in_range tri num_verts"
    and lv: "num_verts \<le> length verts_p"
    and ls: "num_verts * (num_steps - 1) \<le> length vert_steps"
    and fit: "num_verts * (num_steps - 1) < 2 ^ 64"
  shows "motion_verts tri (verts_p, 0) (vert_steps, 0) num_verts num_steps time =
           Inr (blend_spec
             (time * real (num_steps - 1) -
                real (min (nat \<lfloor>time * real (num_steps - 1)\<rfloor>) (num_steps - 2)))
             (sample_spec tri verts_p vert_steps num_verts num_steps
                (min (nat \<lfloor>time * real (num_steps - 1)\<rfloor>) (num_steps - 2)))
             (sample_spec tri verts_p vert_steps num_verts num_steps
                (min (nat \<lfloor>time * real (num_steps - 1)\<rfloor>) (num_steps - 2) + 1))) \<and>
         (time = 0 \<longrightarrow> motion_verts tri (verts_p, 0) (vert_steps, 0) num_verts num_steps time =
            Inr (sample_spec tri verts_p vert_steps num_verts num_steps 0)) \<and>
         (time = 1 \<longrightarrow> motion_verts tri (verts_p, 0) (vert_steps, 0) num_verts num_steps time =
            Inr (sample_spec tri verts_p vert_steps num_verts num_steps (num_steps - 1)))"
proof -
  define step where "step = min (nat \<lfloor>time * real (num_steps - 1)\<rfloor>) (num_steps - 2)"
  define t where "t = time * real (num_steps - 1) - real step"
  let ?S = "sample_spec tri verts_p vert_steps num_verts num_steps"
  obtain v0 v1 v2 where "tri = (v0, v1, v2)" by (cases tri) auto
  with tri have nv: "0 < num_verts" by (auto simp: tri_in_range_def)
  then have "num_steps - 1 \<le> num_verts * (num_steps - 1)" by simp
  with fit have nsfit: "num_steps - 1 < 2 ^ 64" by linarith
  have ms: "size_t_sub num_steps 1 = num_steps - 1"
    using ns nsfit by (simp add: size_t_sub_small)
  have ms1: "size_t_sub (num_steps - 1) 1 = num_steps - 2"
    using ns nsfit by (simp add: size_t_sub_small)
  have "time * real (num_steps - 1) \<le> 1 * real (num_steps - 1)"
    using t1 by (intro mult_right_mono) simp_all
  moreover have "real (num_steps - 1) < real (2 ^ 64)"
    using nsfit by (simp only: of_nat_less_iff)
  ultimately have up: "time * real (num_steps - 1) < 2 ^ 64" by simp
  have lo: "- 1 < time * real (num_steps - 1)"
    using mult_nonneg_nonneg[OF t0, of "real (num_steps - 1)"] by simp
  have cast: "size_t_of_float (time * real (num_steps - 1)) =
              Inr (nat \<lfloor>time * real (num_steps - 1)\<rfloor>)"
    using lo up by (simp add: size_t_of_float_def)
  have st: "step < num_steps" "step + 1 < num_steps"
    using ns by (auto simp: step_def)
  have "step + 1 < 2 ^ 64" using st nsfit by linarith
  then have sa: "size_t_add step 1 = step + 1" by (simp add: size_t_add_def)
  have cur: "verts_for_step tri (verts_p, 0) (vert_steps, 0) num_verts num_steps step = Inr (?S step)"
    by (rule verts_for_step_sample[OF ns tri lv ls fit st(1)])
  have nxt: "verts_for_step tri (verts_p, 0) (vert_steps, 0) num_verts num_steps (step + 1) =
             Inr (?S (step + 1))"
    by (rule verts_for_step_sample[OF ns tri lv ls fit st(2)])
  have main: "motion_verts tri (verts_p, 0) (vert_steps, 0) num_verts num_steps time =
              Inr (blend_spec t (?S step) (?S (step + 1)))"
    unfolding motion_verts_def Let_def ms ms1 cast bind_def sum.case step_def[symmetric]
      sa cur nxt t_def[symmetric]
    by (simp add: blend_spec_def split: prod.splits)
  have e0: "step = 0 \<and> t = 0" if "time = 0"
    using that by (simp add: step_def t_def)
  have e1: "step + 1 = num_steps - 1 \<and> t = 1" if "time = 1"
  proof -
    from that have "step = num_steps - 2" by (simp add: step_def)
    moreover from this ns have "real (num_steps - 1) - real step = 1"
      by (simp add: of_nat_diff)
    ultimately show ?thesis using ns that by (simp add: t_def)
  qed
  have A: "motion_verts tri (verts_p, 0) (vert_steps, 0) num_verts num_steps time =
           Inr (blend_spec
             (time * real (num_steps - 1) -
                real (min (nat \<lfloor>time * real (num_steps - 1)\<rfloor>) (num_steps - 2)))
             (?S (min (nat \<lfloor>time * real (num_steps - 1)\<rfloor>) (num_steps - 2)))
             (?S (min (nat \<lfloor>time * real (num_steps - 1)\<rfloor>) (num_steps - 2) + 1)))"
    using main unfolding t_def step_def .
  have B: "time = 0 \<longrightarrow> motion_verts tri (verts_p, 0) (vert_steps, 0) num_verts num_steps time =
            Inr (?S 0)"
    using main e0 by (auto simp: blend_spec_0)
  have C: "time = 1 \<longrightarrow> motion_verts tri (verts_p, 0) (vert_steps, 0) num_verts num_steps time =
            Inr (?S (num_steps - 1))"
    using main e1 by (auto simp: blend_spec_1)
  show ?thesis by (rule conjI[OF A conjI[OF B C]])
qed

theorem motion_verts_interpolates_witness:
  "motion_verts (0, 1, 2) ([(0, 0, 0), (1, 0, 0), (0, 1, 0)], 0)
     ([(0, 0, - 1), (1, 0, - 1), (0, 1, - 1), (0, 0, 2), (1, 0, 2), (0, 1, 2)], 0) 3 3 (3 / 4) =
   Inr ((0, 0, 1), (1, 0, 1), (0, 1, 1))"
proof -
  have f: "\<lfloor>3 / 4 * real (3 - 1)\<rfloor> = 1" by (simp add: floor_eq_iff)
  show ?thesis
    using motion_verts_interpolates[of 3 "3 / 4" "(0, 1, 2)" 3 "[(0, 0, 0), (1, 0, 0), (0, 1, 0)]"
        "[(0, 0, - 1), (1, 0, - 1), (0, 1, - 1), (0, 0, 2), (1, 0, 2), (0, 1, 2)]"]
    by (simp add: f tri_in_range_def sample_spec_def blend_spec_def add3_def scale3_def)
qed

section \<open>Face normals\<close>





























section \<open>Packing shader ids\<close>

text \<open>
  The ids the loop writes once one lookup has happened: \<^verbatim>\<open>shader_id\<close> is then the id
  resolved from \<^verbatim>\<open>last_shader\<close> and \<^verbatim>\<open>last_smooth\<close>, and every triangle gets the id
  resolved from its own shader index and smooth flag.
\<close>

lemma pack_shaders_loop_resolved:
  assumes "list_all (\<lambda>i. i < length shs \<and> i < length sms) ixs"
    and "shader_id = resolved_id us d gid last_shader last_smooth"
  shows "pack_shaders_loop us d gid (Some shs) (Some sms) ixs shader_id last_shader last_smooth =
         Inr (map (\<lambda>i. resolved_id us d gid (shs ! i) (sms ! i)) ixs)"
  using assms
proof (induction ixs arbitrary: shader_id last_shader last_smooth)
  case Nil
  then show ?case by simp
next
  case (Cons i ixs)
  from Cons.prems(1) have r: "read_at shs (int i) = Inr (shs ! i)"
    "read_at sms (int i) = Inr (sms ! i)" and rest: "list_all (\<lambda>i. i < length shs \<and> i < length sms) ixs"
    by (simp_all add: read_at_def)
  show ?case
  proof (cases "shs ! i \<noteq> last_shader \<or> last_smooth \<noteq> sms ! i")
    case True
    have "pack_shaders_loop us d gid (Some shs) (Some sms) ixs
            (resolved_id us d gid (shs ! i) (sms ! i)) (shs ! i) (sms ! i) =
          Inr (map (\<lambda>i. resolved_id us d gid (shs ! i) (sms ! i)) ixs)"
      by (rule Cons.IH[OF rest refl])
    with True show ?thesis
      by (simp add: r bind_def Let_def resolved_id_def)
  next
    case False
    then have e: "shs ! i = last_shader" "sms ! i = last_smooth" by auto
    have "pack_shaders_loop us d gid (Some shs) (Some sms) ixs shader_id last_shader last_smooth =
          Inr (map (\<lambda>i. resolved_id us d gid (shs ! i) (sms ! i)) ixs)"
      by (rule Cons.IH[OF rest Cons.prems(2)])
    with False show ?thesis
      by (simp add: r bind_def e Cons.prems(2))
  qed
qed

text \<open>
  From the initial variables: the triangles of the leading run with shader index \<open>-1\<close>
  and smooth flag false get the id 0, all others the resolved id.
\<close>

lemma pack_shaders_loop_initial:
  assumes "list_all (\<lambda>i. i < length shs \<and> i < length sms) ixs"
  shows "pack_shaders_loop us d gid (Some shs) (Some sms) ixs 0 (- 1) False =
         Inr (map (\<lambda>i. 0) (takeWhile (\<lambda>i. shs ! i = - 1 \<and> \<not> sms ! i) ixs) @
              map (\<lambda>i. resolved_id us d gid (shs ! i) (sms ! i))
                (dropWhile (\<lambda>i. shs ! i = - 1 \<and> \<not> sms ! i) ixs))"
  using assms
proof (induction ixs)
  case Nil
  then show ?case by simp
next
  case (Cons i ixs)
  from Cons.prems have r: "read_at shs (int i) = Inr (shs ! i)"
    "read_at sms (int i) = Inr (sms ! i)" and rest: "list_all (\<lambda>i. i < length shs \<and> i < length sms) ixs"
    by (simp_all add: read_at_def)
  show ?case
  proof (cases "shs ! i = - 1 \<and> \<not> sms ! i")
    case True
    with Cons.IH[OF rest] show ?thesis by (simp add: r bind_def)
  next
    case False
    have "pack_shaders_loop us d gid (Some shs) (Some sms) ixs
            (resolved_id us d gid (shs ! i) (sms ! i)) (shs ! i) (sms ! i) =
          Inr (map (\<lambda>i. resolved_id us d gid (shs ! i) (sms ! i)) ixs)"
      by (rule pack_shaders_loop_resolved[OF rest refl])
    with False show ?thesis
      by (auto simp: r bind_def Let_def resolved_id_def)
  qed
qed

text \<open>
  C10. A mesh of one triangle with the shader index \<open>-1\<close> and the smooth flag false:
  the index is valid for no shader list, so the id to assign is the one resolved from
  the default surface shader. \<^verbatim>\<open>pack_shaders\<close> writes 0, the initial value of
  \<^verbatim>\<open>shader_id\<close>, and resolves nothing: the pair equals the initial
  \<^verbatim>\<open>last_shader = -1\<close>, \<^verbatim>\<open>last_smooth = false\<close>.
\<close>

theorem pack_shaders_sentinel_collision:
  "bind (run_calls [Reserve_mesh 3 1, Add_triangle 0 1 2 (- 1) False] (Mesh_new :: float3 Mesh))
     (pack_shaders [] default_surface get_shader_id) = Inr [0] \<and>
   resolved_id [] default_surface get_shader_id (- 1) False = get_shader_id default_surface False"
  by (simp add: bind_def reserve_mesh_def add_triangle_def push_back_reserved_def Mesh_new_def
      size_of_def reserve_def array_empty_def AttributeSet_reserve_def pack_shaders_def
      num_triangles_def data_def read_at_def resolved_id_def)

section \<open>Vertex normals are computed once\<close>

lemma static_normals_Inr:
  assumes "static_normals nz flip vs ts m = Inr m'"
  shows "(m' = m \<and> \<not> (AttributeSet_find (attributes m) ATTR_STD_VERTEX_NORMAL = None \<and> ts \<noteq> 0)) \<or>
         (\<exists>buf. m' = m\<lparr>attributes := AttributeSet_add (attributes m) ATTR_STD_VERTEX_NORMAL buf\<rparr>)"
  using assms by (auto simp: static_normals_def bind_Inr_iff split: if_splits)

lemma motion_normals_Inr:
  assumes "motion_normals nz flip vs ts m = Inr m'"
  shows "(m' = m \<and> \<not> (has_motion_blur m \<and>
            AttributeSet_find (attributes m) ATTR_STD_MOTION_VERTEX_POSITION \<noteq> None \<and>
            AttributeSet_find (attributes m) ATTR_STD_MOTION_VERTEX_NORMAL = None \<and> ts \<noteq> 0)) \<or>
         (\<exists>buf. m' = m\<lparr>attributes :=
            AttributeSet_add (attributes m) ATTR_STD_MOTION_VERTEX_NORMAL buf\<rparr>)"
  using assms by (auto simp: motion_normals_def bind_Inr_iff split: if_splits option.splits)

lemma subd_normals_Inr:
  assumes "subd_normals nz snz flip vs m = Inr m'"
  shows "(m' = m \<and> \<not> (AttributeSet_find (subd_attributes m) ATTR_STD_VERTEX_NORMAL = None \<and>
            get_num_subd_faces m \<noteq> 0)) \<or>
         (\<exists>buf. m' = m\<lparr>subd_attributes :=
            AttributeSet_add (subd_attributes m) ATTR_STD_VERTEX_NORMAL buf\<rparr>)"
  using assms by (auto simp: subd_normals_def bind_Inr_iff split: if_splits)

lemma static_normals_skip:
  "\<not> (AttributeSet_find (attributes m) ATTR_STD_VERTEX_NORMAL = None \<and> ts \<noteq> 0) \<Longrightarrow>
     static_normals nz flip vs ts m = Inr m"
  by (auto simp: static_normals_def)

lemma motion_normals_skip:
  "\<not> (has_motion_blur m \<and>
      AttributeSet_find (attributes m) ATTR_STD_MOTION_VERTEX_POSITION \<noteq> None \<and>
      AttributeSet_find (attributes m) ATTR_STD_MOTION_VERTEX_NORMAL = None \<and> ts \<noteq> 0) \<Longrightarrow>
     motion_normals nz flip vs ts m = Inr m"
  by (auto simp: motion_normals_def split: option.splits)

lemma subd_normals_skip:
  "\<not> (AttributeSet_find (subd_attributes m) ATTR_STD_VERTEX_NORMAL = None \<and>
      get_num_subd_faces m \<noteq> 0) \<Longrightarrow>
     subd_normals nz snz flip vs m = Inr m"
  by (auto simp: subd_normals_def)

lemma add_vertex_normals_again:
  assumes "add_vertex_normals nz snz m = Inr m3"
  shows "add_vertex_normals nz snz m3 = Inr m3"
proof -
  let ?flip = "transform_negative_scaled m" and ?vs = "size_of (verts m)"
    and ?ts = "num_triangles m"
  from assms obtain m1 m2 where
    s1: "static_normals nz ?flip ?vs ?ts m = Inr m1" and
    s2: "motion_normals nz ?flip ?vs ?ts m1 = Inr m2" and
    s3: "subd_normals nz snz ?flip ?vs m2 = Inr m3"
    unfolding add_vertex_normals_def Let_def bind_Inr_iff by blast
  note c1 = static_normals_Inr[OF s1] and c2 = motion_normals_Inr[OF s2]
    and c3 = subd_normals_Inr[OF s3]
  have g: "transform_negative_scaled m3 = ?flip" "size_of (verts m3) = ?vs"
    "num_triangles m3 = ?ts"
    using c1 c2 c3 by (auto simp: num_triangles_def)
  have 1: "static_normals nz ?flip ?vs ?ts m3 = Inr m3"
    apply (rule static_normals_skip)
    using c1 c2 c3 by (auto simp: AttributeSet_find_def AttributeSet_add_def)
  have 2: "motion_normals nz ?flip ?vs ?ts m3 = Inr m3"
    apply (rule motion_normals_skip)
    using c1 c2 c3
    by (auto simp: AttributeSet_find_def AttributeSet_add_def has_motion_blur_def)
  have 3: "subd_normals nz snz ?flip ?vs m3 = Inr m3"
    apply (rule subd_normals_skip)
    using c1 c2 c3
    by (auto simp: AttributeSet_find_def AttributeSet_add_def get_num_subd_faces_def)
  show ?thesis
    unfolding add_vertex_normals_def Let_def g by (simp add: 1 2 3 bind_def)
qed

text \<open>
  C8. \<^verbatim>\<open>add_vertex_normals\<close> is idempotent: for every mesh state, and whatever the two
  normalisation functions are, calling it twice gives what calling it once gives. When
  the first call returns, the second finds every normal attribute that the first call
  made or found and returns the mesh unchanged.
\<close>

theorem add_vertex_normals_idempotent:
  "bind (add_vertex_normals nz snz m) (add_vertex_normals nz snz) = add_vertex_normals nz snz m"
proof (cases "add_vertex_normals nz snz m")
  case (Inl e)
  then show ?thesis by (simp add: bind_def)
next
  case (Inr m3)
  with add_vertex_normals_again[OF Inr] show ?thesis by (simp add: bind_def)
qed

theorem add_vertex_normals_idempotent_witness:
  "add_vertex_normals normalize normalize
     ((Mesh_new :: float3 Mesh)\<lparr>
        verts := \<lparr>items = [(0, 0, 0), (1, 0, 0), (0, 1, 0)], capacity = 3\<rparr>,
        triangles := \<lparr>items = [0, 1, 2], capacity = 3\<rparr>,
        shader := \<lparr>items = [0], capacity = 2\<rparr>,
        smooth := \<lparr>items = [True], capacity = 2\<rparr>\<rparr>) =
   Inr ((Mesh_new :: float3 Mesh)\<lparr>
        verts := \<lparr>items = [(0, 0, 0), (1, 0, 0), (0, 1, 0)], capacity = 3\<rparr>,
        triangles := \<lparr>items = [0, 1, 2], capacity = 3\<rparr>,
        shader := \<lparr>items = [0], capacity = 2\<rparr>,
        smooth := \<lparr>items = [True], capacity = 2\<rparr>,
        attributes := [ATTR_STD_VERTEX_NORMAL \<mapsto> [(0, 0, 1), (0, 0, 1), (0, 0, 1)]]\<rparr>) \<and>
   add_vertex_normals normalize normalize
     ((Mesh_new :: float3 Mesh)\<lparr>
        verts := \<lparr>items = [(0, 0, 0), (1, 0, 0), (0, 1, 0)], capacity = 3\<rparr>,
        triangles := \<lparr>items = [0, 1, 2], capacity = 3\<rparr>,
        shader := \<lparr>items = [0], capacity = 2\<rparr>,
        smooth := \<lparr>items = [True], capacity = 2\<rparr>,
        attributes := [ATTR_STD_VERTEX_NORMAL \<mapsto> [(0, 0, 1), (0, 0, 1), (0, 0, 1)]]\<rparr>) =
   Inr ((Mesh_new :: float3 Mesh)\<lparr>
        verts := \<lparr>items = [(0, 0, 0), (1, 0, 0), (0, 1, 0)], capacity = 3\<rparr>,
        triangles := \<lparr>items = [0, 1, 2], capacity = 3\<rparr>,
        shader := \<lparr>items = [0], capacity = 2\<rparr>,
        smooth := \<lparr>items = [True], capacity = 2\<rparr>,
        attributes := [ATTR_STD_VERTEX_NORMAL \<mapsto> [(0, 0, 1), (0, 0, 1), (0, 0, 1)]]\<rparr>)"
proof -
  let ?m = "(Mesh_new :: float3 Mesh)\<lparr>
        verts := \<lparr>items = [(0, 0, 0), (1, 0, 0), (0, 1, 0)], capacity = 3\<rparr>,
        triangles := \<lparr>items = [0, 1, 2], capacity = 3\<rparr>,
        shader := \<lparr>items = [0], capacity = 2\<rparr>,
        smooth := \<lparr>items = [True], capacity = 2\<rparr>\<rparr>"
  let ?m' = "?m\<lparr>attributes := [ATTR_STD_VERTEX_NORMAL \<mapsto> [(0, 0, 1), (0, 0, 1), (0, 0, 1)]]\<rparr>"
  have e: "add_vertex_normals normalize normalize ?m = Inr ?m'"
    by (simp add: add_vertex_normals_def static_normals_def motion_normals_def subd_normals_def
        Let_def num_triangles_def size_of_def Mesh_new_def AttributeSet_find_def
        AttributeSet_add_def get_num_subd_faces_def has_motion_blur_def upt_rec write_ptr_def
        bind_def zero_float3_def get_triangle_def array_at_def compute_normal_def read_ptr_def
        read_at_def cross_def sub3_def len3_def div3_def add_at_def add3_def normalize_def
        array_empty_def)
  from add_vertex_normals_idempotent[of normalize normalize ?m]
  have "add_vertex_normals normalize normalize ?m' = Inr ?m'"
    by (simp add: e bind_def)
  with e show ?thesis by simp
qed

section \<open>Bounds are never left invalid\<close>

lemma grow_loop_foldl:
  "list_all (\<lambda>i. rd i = Inr (f i)) ixs \<Longrightarrow> grow_loop g rd ixs b = Inr (foldl g b (map f ixs))"
  by (induction ixs arbitrary: b) (simp_all add: bind_def)

lemma map_nth_take: "n \<le> length xs \<Longrightarrow> map ((!) xs) [0..<n] = take n xs"
  by (simp add: list_eq_iff_nth_eq)

lemma foldl_grow_safe:
  "foldl grow_safe b pts = foldl grow b (filter isfinite_safe pts)"
  by (induction pts arbitrary: b) (simp_all add: grow_safe_def)

lemma foldl_grow_nonfinite: "foldl grow BoundBox_nonfinite pts = BoundBox_nonfinite"
proof (induction pts)
  case Nil
  then show ?case by simp
next
  case (Cons pt pts)
  then show ?case by (cases pt) simp_all
qed

lemma foldl_grow_None: "None \<in> set pts \<Longrightarrow> foldl grow b pts = BoundBox_nonfinite"
proof (induction pts arbitrary: b)
  case Nil
  then show ?case by simp
next
  case (Cons pt pts)
  show ?case
  proof (cases pt)
    case None
    then show ?thesis by (simp add: foldl_grow_nonfinite)
  next
    case (Some p)
    with Cons show ?thesis by simp
  qed
qed

lemma axis_bounds_single: "axis_bounds x x [x]"
  by (simp add: axis_bounds_def)

lemma axis_bounds_grow:
  "axis_bounds l h xs \<Longrightarrow> axis_bounds (min l x) (max h x) (xs @ [x])"
  unfolding axis_bounds_def list_all_iff by (auto simp: min_def max_def)

lemma bounds_exactly_single: "bounds_exactly (Box p p) [p]"
  by (simp add: bounds_exactly_def axis_bounds_single)

lemma bounds_exactly_grow:
  assumes "bounds_exactly (Box lo hi) qs"
  shows "bounds_exactly (Box (min3 lo p) (max3 hi p)) (qs @ [p])"
proof -
  obtain lx ly lz hx hy hz x y z where
    e: "lo = (lx, ly, lz)" "hi = (hx, hy, hz)" "p = (x, y, z)"
    by (cases lo; cases hi; cases p) auto
  from assms have "axis_bounds lx hx (map px qs)" "axis_bounds ly hy (map py qs)"
    "axis_bounds lz hz (map pz qs)"
    by (simp_all add: bounds_exactly_def e px_def py_def pz_def)
  from this[THEN axis_bounds_grow] show ?thesis
    by (simp add: bounds_exactly_def e min3_def max3_def px_def py_def pz_def)
qed

lemma foldl_grow_Box:
  "bounds_exactly (Box lo hi) qs \<Longrightarrow>
     \<exists>lo' hi'. foldl grow (Box lo hi) (map Some ps) = Box lo' hi' \<and>
       bounds_exactly (Box lo' hi') (qs @ ps)"
proof (induction ps arbitrary: lo hi qs)
  case Nil
  then show ?case by simp
next
  case (Cons p ps)
  from Cons.IH[OF bounds_exactly_grow[OF Cons.prems, of p]] show ?case by simp
qed

lemma foldl_grow_finite:
  "ps \<noteq> [] \<Longrightarrow> \<exists>lo hi. foldl grow BoundBox_empty (map Some ps) = Box lo hi \<and>
     bounds_exactly (Box lo hi) ps"
proof (cases ps)
  case Nil
  then show "ps \<noteq> [] \<Longrightarrow> ?thesis" by simp
next
  case (Cons p ps')
  from foldl_grow_Box[OF bounds_exactly_single, of p ps'] show ?thesis by (simp add: Cons)
qed

lemma filter_finite_Some: "filter isfinite_safe pts = map Some (finite_points pts)"
  by (induction pts) (auto simp: finite_points_def isfinite_safe_def)

lemma all_finite_Some:
  assumes "None \<notin> set pts"
  shows "pts = map Some (finite_points pts)"
proof -
  from assms have "\<forall>pt\<in>set pts. isfinite_safe pt"
    unfolding isfinite_safe_def by metis
  then have "filter isfinite_safe pts = pts" by (simp add: filter_id_conv)
  with filter_finite_Some[of pts] show ?thesis by simp
qed

lemma steps_size_of_spec:
  assumes "1 \<le> unat (motion_steps m)" and "num_motion_samples_spec m < 2 ^ 64"
  shows "steps_size_of m = num_motion_samples_spec m"
proof -
  from assms(1) have "1 \<le> motion_steps m" by (simp add: word_le_nat_alt)
  then have "unat (motion_steps m - 1) = unat (motion_steps m) - 1"
    by (simp add: unat_sub)
  with assms(2) show ?thesis
    by (simp add: steps_size_of_def size_t_mul_def num_motion_samples_spec_def size_of_def)
qed

lemma grow_loop_verts:
  "grow_loop g (array_at (verts m)) [0..<size_of (verts m)] b = Inr (foldl g b (items (verts m)))"
proof -
  have "list_all (\<lambda>i. array_at (verts m) i = Inr (items (verts m) ! i)) [0..<size_of (verts m)]"
    by (simp add: list_all_iff array_at_def)
  from grow_loop_foldl[OF this, of g b] show ?thesis
    by (simp add: size_of_def map_nth)
qed

lemma grow_loop_steps:
  assumes "n \<le> length vert_steps"
  shows "grow_loop g (\<lambda>i. read_ptr (vert_steps, 0) (int i)) [0..<n] b =
         Inr (foldl g b (take n vert_steps))"
proof -
  have "list_all (\<lambda>i. read_ptr (vert_steps, 0) (int i) = Inr (vert_steps ! i)) [0..<n]"
    using assms by (simp add: list_all_iff read_ptr_0)
  from grow_loop_foldl[OF this, of g b] show ?thesis
    by (simp add: map_nth_take[OF assms])
qed

lemma motion_pass:
  assumes "motion_buffer_ok m"
  shows "(case (if use_motion_blur m
               then AttributeSet_find (attributes m) ATTR_STD_MOTION_VERTEX_POSITION
               else None) of
            Some vert_steps \<Rightarrow>
              grow_loop g (\<lambda>i. read_ptr (vert_steps, 0) (int i)) [0..<steps_size_of m] b
          | None \<Rightarrow> Inr b) =
         Inr (foldl g (foldl g b []) (drop (length (items (verts m))) (bounded_points m)))"
proof (cases "if use_motion_blur m
              then AttributeSet_find (attributes m) ATTR_STD_MOTION_VERTEX_POSITION else None")
  case None
  then show ?thesis by (simp add: bounded_points_def)
next
  case (Some vert_steps)
  with assms have one: "1 \<le> unat (motion_steps m)"
    and fit: "num_motion_samples_spec m < 2 ^ 64"
    and le: "num_motion_samples_spec m \<le> length vert_steps"
    by (simp_all add: motion_buffer_ok_def)
  note n = steps_size_of_spec[OF one fit]
  have "grow_loop g (\<lambda>i. read_ptr (vert_steps, 0) (int i)) [0..<steps_size_of m] b =
        Inr (foldl g b (take (num_motion_samples_spec m) vert_steps))"
    unfolding n by (rule grow_loop_steps[OF le])
  then show ?thesis
    by (simp add: Some bounded_points_def)
qed

lemma foldl_verts_motion:
  "foldl g (foldl g b (items (verts m))) (drop (length (items (verts m))) (bounded_points m)) =
   foldl g b (bounded_points m)"
proof -
  have "bounded_points m =
        items (verts m) @ drop (length (items (verts m))) (bounded_points m)"
    by (simp add: bounded_points_def)
  then have "foldl g b (bounded_points m) =
        foldl g b (items (verts m) @ drop (length (items (verts m))) (bounded_points m))"
    by simp
  then show ?thesis by (simp only: foldl_append)
qed

lemma compute_bounds_nonempty:
  assumes ok: "motion_buffer_ok m" and ne: "size_of (verts m) > 0"
  shows "compute_bounds m =
         Inr (m\<lparr>bounds :=
           (let b1 = foldl grow BoundBox_empty (bounded_points m);
                b2 = (if \<not> valid b1 then foldl grow_safe BoundBox_empty (bounded_points m)
                      else b1)
            in if \<not> valid b2 then grow b2 (Some zero_float3) else b2)\<rparr>)"
  unfolding compute_bounds_def Let_def
  using ne
  by (simp add: grow_loop_verts motion_pass[OF ok] bind_def foldl_verts_motion)

lemma compute_bounds_empty:
  "size_of (verts m) = 0 \<Longrightarrow>
     compute_bounds m = Inr (m\<lparr>bounds := Box zero_float3 zero_float3\<rparr>)"
  by (simp add: compute_bounds_def bind_def)

lemma bounded_points_empty:
  "size_of (verts m) = 0 \<Longrightarrow> bounded_points m = []"
  by (auto simp: bounded_points_def num_motion_samples_spec_def size_of_def
      split: option.splits)

text \<open>
  C4. \<^verbatim>\<open>compute_bounds\<close> returns and leaves valid bounds. On a mesh without vertices the
  bounds are the box that contains only the origin. Otherwise the points are the
  vertices and, when motion blur is on and the motion-position attribute exists, the
  \<open>num_verts * (num_steps - 1)\<close> motion samples: the bounds are exactly those of the finite
  points, also when some point is not finite, and the box of the origin when no point is
  finite.
\<close>

theorem compute_bounds_never_invalid:
  assumes ok: "motion_buffer_ok m"
  shows "\<exists>b. compute_bounds m = Inr (m\<lparr>bounds := b\<rparr>) \<and> valid b \<and>
           (size_of (verts m) = 0 \<longrightarrow> b = Box zero_float3 zero_float3) \<and>
           (if finite_points (bounded_points m) = [] then b = Box zero_float3 zero_float3
            else bounds_exactly b (finite_points (bounded_points m)))"
proof (cases "size_of (verts m) = 0")
  case True
  then show ?thesis
    by (simp add: compute_bounds_empty bounded_points_empty finite_points_def)
next
  case False
  let ?pts = "bounded_points m" and ?fin = "finite_points (bounded_points m)"
  from False have ne: "size_of (verts m) > 0" by simp
  then have ptsne: "?pts \<noteq> []" by (auto simp: bounded_points_def size_of_def)
  note cb = compute_bounds_nonempty[OF ok ne]
  show ?thesis
  proof (cases "None \<in> set ?pts")
    case nf: True
    have b1: "foldl grow BoundBox_empty ?pts = BoundBox_nonfinite"
      by (rule foldl_grow_None[OF nf])
    have b2: "foldl grow_safe BoundBox_empty ?pts = foldl grow BoundBox_empty (map Some ?fin)"
      by (simp only: foldl_grow_safe filter_finite_Some)
    show ?thesis
    proof (cases "?fin = []")
      case True
      then show ?thesis using False
        by (intro exI[of _ "Box zero_float3 zero_float3"]) (simp add: cb b1 b2 Let_def)
    next
      case fne: False
      from foldl_grow_finite[OF fne] obtain lo hi where
        "foldl grow BoundBox_empty (map Some ?fin) = Box lo hi" "bounds_exactly (Box lo hi) ?fin"
        by blast
      then show ?thesis using False fne
        by (intro exI[of _ "Box lo hi"]) (simp add: cb b1 b2 Let_def)
    qed
  next
    case af: False
    from all_finite_Some[OF af] have e: "?pts = map Some ?fin" .
    with ptsne have fne: "?fin \<noteq> []" by auto
    from foldl_grow_finite[OF fne] obtain lo hi where
      "foldl grow BoundBox_empty (map Some ?fin) = Box lo hi" "bounds_exactly (Box lo hi) ?fin"
      by blast
    then have "foldl grow BoundBox_empty ?pts = Box lo hi" "bounds_exactly (Box lo hi) ?fin"
      using e by simp_all
    then show ?thesis using False fne
      by (intro exI[of _ "Box lo hi"]) (simp add: cb Let_def)
  qed
qed

theorem compute_bounds_never_invalid_witness:
  "motion_buffer_ok ((Mesh_new :: float3 option Mesh)\<lparr>
      verts := \<lparr>items = [Some (1, 2, 3), Some (- 1, 5, 0)], capacity = 2\<rparr>,
      attributes := [ATTR_STD_MOTION_VERTEX_POSITION \<mapsto>
        [Some (0, 0, 0), None, Some (4, - 2, 1), Some (0, 7, 8)]],
      use_motion_blur := True\<rparr>) \<and>
   compute_bounds ((Mesh_new :: float3 option Mesh)\<lparr>
      verts := \<lparr>items = [Some (1, 2, 3), Some (- 1, 5, 0)], capacity = 2\<rparr>,
      attributes := [ATTR_STD_MOTION_VERTEX_POSITION \<mapsto>
        [Some (0, 0, 0), None, Some (4, - 2, 1), Some (0, 7, 8)]],
      use_motion_blur := True\<rparr>) =
   Inr ((Mesh_new :: float3 option Mesh)\<lparr>
      verts := \<lparr>items = [Some (1, 2, 3), Some (- 1, 5, 0)], capacity = 2\<rparr>,
      attributes := [ATTR_STD_MOTION_VERTEX_POSITION \<mapsto>
        [Some (0, 0, 0), None, Some (4, - 2, 1), Some (0, 7, 8)]],
      use_motion_blur := True,
      bounds := Box (- 1, - 2, 0) (4, 7, 8)\<rparr>) \<and>
   bounds_exactly (Box (- 1, - 2, 0) (4, 7, 8))
     [(1, 2, 3), (- 1, 5, 0), (0, 0, 0), (4, - 2, 1), (0, 7, 8)]"
proof -
  let ?m = "(Mesh_new :: float3 option Mesh)\<lparr>
      verts := \<lparr>items = [Some (1, 2, 3), Some (- 1, 5, 0)], capacity = 2\<rparr>,
      attributes := [ATTR_STD_MOTION_VERTEX_POSITION \<mapsto>
        [Some (0, 0, 0), None, Some (4, - 2, 1), Some (0, 7, 8)]],
      use_motion_blur := True\<rparr>"
  have ok: "motion_buffer_ok ?m"
    by (simp add: motion_buffer_ok_def Mesh_new_def AttributeSet_find_def
        num_motion_samples_spec_def)
  have pts: "finite_points (bounded_points ?m) =
             [(1, 2, 3), (- 1, 5, 0), (0, 0, 0), (4, - 2, 1), (0, 7, 8)]"
    by (simp add: finite_points_def bounded_points_def Mesh_new_def isfinite_safe_def
        AttributeSet_find_def num_motion_samples_spec_def)
  have cb: "compute_bounds ?m = Inr (?m\<lparr>bounds := Box (- 1, - 2, 0) (4, 7, 8)\<rparr>)"
    by (simp add: compute_bounds_def Let_def size_of_def Mesh_new_def upt_rec array_at_def
        bind_def grow_safe_def isfinite_safe_def min3_def max3_def AttributeSet_find_def
        steps_size_of_def size_t_mul_def read_ptr_def read_at_def)
  from compute_bounds_never_invalid[OF ok] obtain b where
    "compute_bounds ?m = Inr (?m\<lparr>bounds := b\<rparr>)"
    "bounds_exactly b (finite_points (bounded_points ?m))"
    by (auto simp: pts)
  moreover from this(1) cb
  have "bounds (?m\<lparr>bounds := b\<rparr>) = bounds (?m\<lparr>bounds := Box (- 1, - 2, 0) (4, 7, 8)\<rparr>)"
    by (simp only: sum.inject)
  then have "b = Box (- 1, - 2, 0) (4, 7, 8)" by simp
  ultimately have "bounds_exactly (Box (- 1, - 2, 0) (4, 7, 8))
      [(1, 2, 3), (- 1, 5, 0), (0, 0, 0), (4, - 2, 1), (0, 7, 8)]"
    by (simp add: pts)
  with ok cb show ?thesis by simp
qed

end
